theory Spec2Isabelle
  imports Main
begin

section \<open>The command-line interface of google-pronouncer\<close>

text \<open>
  The source is \<^verbatim>\<open>google_pronouncer/cli.py\<close>: \<^verbatim>\<open>parse_args\<close>, \<^verbatim>\<open>setup_logging\<close>,
  \<^verbatim>\<open>process_words\<close>, \<^verbatim>\<open>show_cache_info\<close>, \<^verbatim>\<open>clear_cache\<close> and \<^verbatim>\<open>main\<close>.
  The module \<^verbatim>\<open>downloader\<close> it imports from (the class
  \<^verbatim>\<open>GooglePronunciationDownloader\<close>, \<^verbatim>\<open>DownloadConfig\<close>, \<^verbatim>\<open>AccentType\<close>, the two
  error classes) is not among the sources, so the downloader is a parameter of the model:
  a record of operations over an arbitrary world \<open>'w\<close> (file system and network), each
  of which returns a value or raises, and may change the world.

  Exceptions are values: a function that can raise returns \<open>exn + 'a\<close>, \<open>Inl\<close> being
  the raise. The exception type has one constructor per \<^verbatim>\<open>except\<close> clause of the
  source: the two classes caught by name, and every other subclass of \<^verbatim>\<open>Exception\<close>.
  \<^verbatim>\<open>KeyboardInterrupt\<close> and \<^verbatim>\<open>SystemExit\<close> raised from inside the downloader are not
  subclasses of \<^verbatim>\<open>Exception\<close> and are outside the model.
\<close>

subsection \<open>Values\<close>

datatype Path = Path string

text \<open>The four keyword arguments of the call \<^verbatim>\<open>DownloadConfig(...)\<close> in \<^verbatim>\<open>main\<close>.\<close>

record DownloadConfig =
  output_dir :: Path
  timeout :: int
  use_cache :: bool
  force_download :: bool

datatype exn = DownloadError string | CacheError string | OtherException string

text \<open>\<^verbatim>\<open>str(e)\<close>, as the f-strings of the log messages use it.\<close>

fun exn_str :: "exn \<Rightarrow> string" where
  "exn_str (DownloadError m) = m"
| "exn_str (CacheError m) = m"
| "exn_str (OtherException m) = m"

text \<open>The f-string fragment \<^verbatim>\<open>'{word}'\<close>: the word between two apostrophes.\<close>

definition quoted :: "string \<Rightarrow> string" where
  "quoted s = CHR 0x27 # s @ [CHR 0x27]"

text \<open>
  \<^verbatim>\<open>repr\<close> of a string, the text of a \<^verbatim>\<open>KeyError\<close>: between apostrophes, or
  between double quotes when the string has an apostrophe and no double quote; the quote
  in use and the backslash are escaped, tab, newline and carriage return are written
  \<^verbatim>\<open>\t\<close>, \<^verbatim>\<open>\n\<close>, \<^verbatim>\<open>\r\<close>, and the other control characters of ASCII in the form
  \<^verbatim>\<open>\xhh\<close>. A character beyond ASCII is left as it is, as Python does for every
  printable one.
\<close>

definition repr_char :: "char \<Rightarrow> char \<Rightarrow> string" where
  "repr_char q c =
     (if c = q \<or> c = CHR 0x5C then [CHR 0x5C, c]
      else if c = CHR 0x09 then [CHR 0x5C, CHR ''t'']
      else if c = CHR 0x0A then [CHR 0x5C, CHR ''n'']
      else if c = CHR 0x0D then [CHR 0x5C, CHR ''r'']
      else if (of_char c :: nat) < 32 \<or> c = CHR 0x7F then
        [CHR 0x5C, CHR ''x'', ''0123456789abcdef'' ! (of_char c div 16),
         ''0123456789abcdef'' ! (of_char c mod 16)]
      else [c])"

definition repr_quote :: "string \<Rightarrow> char" where
  "repr_quote s = (if CHR 0x27 \<in> set s \<and> CHR 0x22 \<notin> set s then CHR 0x22 else CHR 0x27)"

definition repr :: "string \<Rightarrow> string" where
  "repr s = repr_quote s # concat (map (repr_char (repr_quote s)) s) @ [repr_quote s]"

text \<open>
  Modelled from the spec: the enum \<^verbatim>\<open>AccentType\<close> is declared in the downloader module,
  which is not among the sources. The spec gives the accent as a two-value enum
  \<open>{GB, US}\<close>, and the command line spells the two accents \<^verbatim>\<open>gb\<close> and \<^verbatim>\<open>us\<close>.
  Calling a Python enum on a string that is none of its values raises \<^verbatim>\<open>ValueError\<close>.
\<close>

datatype AccentType = GB | US

definition AccentType_of :: "string \<Rightarrow> exn + AccentType" where
  "AccentType_of s =
     (if s = ''gb'' then Inr GB
      else if s = ''us'' then Inr US
      else Inl (OtherException (quoted s @ '' is not a valid AccentType'')))"

text \<open>
  What \<^verbatim>\<open>get_cache_info\<close> returns is handed to \<^verbatim>\<open>json.dumps\<close>: a dictionary from
  words to values. A dictionary is an association list; the empty list stands for both
  falsy results, \<^verbatim>\<open>None\<close> and \<^verbatim>\<open>{}\<close>, which the source never tells apart. Nothing
  in \<^verbatim>\<open>cli.py\<close> makes the values fit for JSON: \<open>JRejected\<close> is a value on which
  \<^verbatim>\<open>json.dumps\<close> raises (a path, a date, bytes, a dictionary with a key it does not
  take), together with the text of the exception.
\<close>

datatype json =
    JNull
  | JBool bool
  | JNum int
  | JStr string
  | JArr "json list"
  | JObj "(string \<times> json) list"
  | JRejected string

fun first_some :: "'a option list \<Rightarrow> 'a option" where
  "first_some [] = None"
| "first_some (None # xs) = first_some xs"
| "first_some (Some x # xs) = Some x"

text \<open>The first value, in the order of the encoder, on which \<^verbatim>\<open>json.dumps\<close> raises.\<close>

fun rejected :: "json \<Rightarrow> string option" where
  "rejected (JRejected m) = Some m"
| "rejected (JArr vs) = first_some (map rejected vs)"
| "rejected (JObj fs) = first_some (map (\<lambda>f. rejected (snd f)) fs)"
| "rejected JNull = None"
| "rejected (JBool b) = None"
| "rejected (JNum n) = None"
| "rejected (JStr s) = None"

subsection \<open>The downloader, and the state of a run\<close>

text \<open>
  The operations of \<^verbatim>\<open>GooglePronunciationDownloader\<close> that the CLI calls: the
  constructor and four methods. Each takes the configuration of the object it is called
  on. \<^verbatim>\<open>download_pronunciation\<close> returns a path or a falsy value (\<open>None\<close> here);
  for \<^verbatim>\<open>get_cache_info\<close> and \<^verbatim>\<open>clear_cache\<close> the optional word is \<open>None\<close> when
  the method is called without argument.
\<close>

record 'w downloader_ops =
  dl_init :: "DownloadConfig \<Rightarrow> 'w \<Rightarrow> (exn + unit) \<times> 'w"
  dl_download_all_accents :: "DownloadConfig \<Rightarrow> string \<Rightarrow> 'w \<Rightarrow> (exn + Path list) \<times> 'w"
  dl_download_pronunciation ::
    "DownloadConfig \<Rightarrow> string \<Rightarrow> AccentType \<Rightarrow> 'w \<Rightarrow> (exn + Path option) \<times> 'w"
  dl_get_cache_info ::
    "DownloadConfig \<Rightarrow> string option \<Rightarrow> 'w \<Rightarrow> (exn + (string \<times> json) list) \<times> 'w"
  dl_clear_cache :: "DownloadConfig \<Rightarrow> string option \<Rightarrow> 'w \<Rightarrow> (exn + unit) \<times> 'w"

text \<open>A downloader object is known by the configuration it was constructed with.\<close>

datatype downloader = Downloader DownloadConfig

fun config_of :: "downloader \<Rightarrow> DownloadConfig" where
  "config_of (Downloader c) = c"

text \<open>
  Every call that crosses from the CLI into the downloader module, with its arguments.
  The run keeps them, in order, in \<open>calls\<close>: what the CLI asked of the downloader.
\<close>

datatype call =
    Call_init DownloadConfig
  | Call_download_all_accents DownloadConfig string
  | Call_download_pronunciation DownloadConfig string AccentType
  | Call_get_cache_info DownloadConfig "string option"
  | Call_clear_cache DownloadConfig "string option"
  | Call_AccentType string

text \<open>The configuration a call carries (none for the enum conversion).\<close>

fun call_config :: "call \<Rightarrow> DownloadConfig option" where
  "call_config (Call_init c) = Some c"
| "call_config (Call_download_all_accents c w) = Some c"
| "call_config (Call_download_pronunciation c w a) = Some c"
| "call_config (Call_get_cache_info c w) = Some c"
| "call_config (Call_clear_cache c w) = Some c"
| "call_config (Call_AccentType s) = None"

text \<open>The word a download call is for.\<close>

fun call_word :: "call \<Rightarrow> string option" where
  "call_word (Call_download_all_accents c w) = Some w"
| "call_word (Call_download_pronunciation c w a) = Some w"
| "call_word (Call_init c) = None"
| "call_word (Call_get_cache_info c w) = None"
| "call_word (Call_clear_cache c w) = None"
| "call_word (Call_AccentType s) = None"

datatype level = DEBUG | INFO | WARNING

text \<open>
  What \<^verbatim>\<open>print\<close> wrote: a line of text, or the text \<^verbatim>\<open>json.dumps(v, indent=2)\<close> of a
  value \<open>v\<close>.
\<close>

datatype out_item = Text string | Json_dumps json

text \<open>
  \<^verbatim>\<open>json.dumps(v, indent=2)\<close>: the text, or the exception (a \<^verbatim>\<open>TypeError\<close> or a
  \<^verbatim>\<open>ValueError\<close>, both caught as \<^verbatim>\<open>Exception\<close>).
\<close>

definition json_dumps :: "json \<Rightarrow> exn + out_item" where
  "json_dumps v = (case rejected v of None \<Rightarrow> Inr (Json_dumps v) | Some m \<Rightarrow> Inl (OtherException m))"

record 'w cli_state =
  world :: 'w
  log_level :: level
  logged :: "string list"
  printed :: "out_item list"
  calls :: "call list"

text \<open>A process starts with the root logger at its default level and nothing written.\<close>

definition start :: "'w \<Rightarrow> 'w cli_state" where
  "start w = \<lparr>world = w, log_level = WARNING, logged = [], printed = [], calls = []\<rparr>"

text \<open>
  \<^verbatim>\<open>logging.error\<close>: the level \<^verbatim>\<open>ERROR\<close> is above each of the three levels a run can
  have, so the record is always emitted.
\<close>

definition logging_error :: "string \<Rightarrow> 'w cli_state \<Rightarrow> 'w cli_state" where
  "logging_error msg st = st\<lparr>logged := logged st @ [msg]\<rparr>"

definition print :: "out_item \<Rightarrow> 'w cli_state \<Rightarrow> 'w cli_state" where
  "print x st = st\<lparr>printed := printed st @ [x]\<rparr>"

text \<open>Running an operation of the downloader on the world, noting the call.\<close>

definition invoke :: "call \<Rightarrow> ('w \<Rightarrow> 'r \<times> 'w) \<Rightarrow> 'w cli_state \<Rightarrow> 'r \<times> 'w cli_state" where
  "invoke c f st =
     (case f (world st) of (r, w') \<Rightarrow> (r, st\<lparr>world := w', calls := calls st @ [c]\<rparr>))"

text \<open>\<^verbatim>\<open>GooglePronunciationDownloader(config)\<close>.\<close>

definition GooglePronunciationDownloader ::
  "'w downloader_ops \<Rightarrow> DownloadConfig \<Rightarrow> 'w cli_state \<Rightarrow> (exn + downloader) \<times> 'w cli_state" where
  "GooglePronunciationDownloader ops config st =
     (case invoke (Call_init config) (dl_init ops config) st of
        (Inl e, st') \<Rightarrow> (Inl e, st')
      | (Inr u, st') \<Rightarrow> (Inr (Downloader config), st'))"

definition download_all_accents ::
  "'w downloader_ops \<Rightarrow> downloader \<Rightarrow> string \<Rightarrow> 'w cli_state \<Rightarrow> (exn + Path list) \<times> 'w cli_state" where
  "download_all_accents ops d word =
     invoke (Call_download_all_accents (config_of d) word)
       (dl_download_all_accents ops (config_of d) word)"

definition download_pronunciation ::
  "'w downloader_ops \<Rightarrow> downloader \<Rightarrow> string \<Rightarrow> AccentType \<Rightarrow> 'w cli_state
     \<Rightarrow> (exn + Path option) \<times> 'w cli_state" where
  "download_pronunciation ops d word a =
     invoke (Call_download_pronunciation (config_of d) word a)
       (dl_download_pronunciation ops (config_of d) word a)"

definition get_cache_info ::
  "'w downloader_ops \<Rightarrow> downloader \<Rightarrow> string option \<Rightarrow> 'w cli_state
     \<Rightarrow> (exn + (string \<times> json) list) \<times> 'w cli_state" where
  "get_cache_info ops d word =
     invoke (Call_get_cache_info (config_of d) word) (dl_get_cache_info ops (config_of d) word)"

definition downloader_clear_cache ::
  "'w downloader_ops \<Rightarrow> downloader \<Rightarrow> string option \<Rightarrow> 'w cli_state \<Rightarrow> (exn + unit) \<times> 'w cli_state" where
  "downloader_clear_cache ops d word =
     invoke (Call_clear_cache (config_of d) word) (dl_clear_cache ops (config_of d) word)"

text \<open>\<^verbatim>\<open>AccentType(accent)\<close> at its call site in \<^verbatim>\<open>process_words\<close>.\<close>

definition AccentType_call :: "string \<Rightarrow> 'w cli_state \<Rightarrow> (exn + AccentType) \<times> 'w cli_state" where
  "AccentType_call s st = (AccentType_of s, st\<lparr>calls := calls st @ [Call_AccentType s]\<rparr>)"

subsection \<open>\<^verbatim>\<open>setup_logging\<close> and \<^verbatim>\<open>parse_args\<close>\<close>

definition setup_logging :: "bool \<Rightarrow> 'w cli_state \<Rightarrow> 'w cli_state" where
  "setup_logging verbose st = st\<lparr>log_level := (if verbose then DEBUG else INFO)\<rparr>"

text \<open>
  The command line as \<^verbatim>\<open>argparse\<close> has split it: for each option of the parser whether
  it was given and with which argument, the subcommand token, the positional words after
  it and the argument of \<^verbatim>\<open>-a/--accent\<close>. Splitting the argument vector is the library's
  work; what \<^verbatim>\<open>parse_args\<close> itself decides is the set of subcommands, \<^verbatim>\<open>nargs\<close>, the
  \<^verbatim>\<open>choices\<close> of the accent, the conversions and the defaults. The argument of
  \<^verbatim>\<open>-t/--timeout\<close> comes as the result of \<^verbatim>\<open>type=int\<close>: a number, or no number when
  \<^verbatim>\<open>int\<close> rejects the text. \<^verbatim>\<open>-h/--help\<close>, which the library adds and which ends
  the process before \<^verbatim>\<open>main\<close> goes on, is not part of the record.
\<close>

record raw_args =
  raw_output_dir :: "string option"
  raw_timeout :: "int option option"
  raw_verbose :: bool
  raw_no_cache :: bool
  raw_force_download :: bool
  raw_command :: "string option"
  raw_words :: "string list"
  raw_accent :: "string option"

text \<open>
  The namespace \<^verbatim>\<open>parse_args\<close> returns. The attributes \<^verbatim>\<open>words\<close> and \<^verbatim>\<open>accent\<close>
  belong to the subparsers: \<open>None\<close> when the namespace has no such attribute.
\<close>

record Namespace =
  args_command :: "string option"
  args_words :: "string list option"
  args_accent :: "string option"
  args_output_dir :: Path
  args_timeout :: int
  args_verbose :: bool
  args_no_cache :: bool
  args_force_download :: bool

text \<open>
  The options of the top-level parser: \<^verbatim>\<open>-o\<close> with \<^verbatim>\<open>type=Path\<close> and default
  \<^verbatim>\<open>Path("pronunciations")\<close>, \<^verbatim>\<open>-t\<close> with default 10, three \<^verbatim>\<open>store_true\<close> flags.
\<close>

definition global_options ::
  "raw_args \<Rightarrow> string option \<Rightarrow> string list option \<Rightarrow> string option \<Rightarrow> int \<Rightarrow> Namespace" where
  "global_options raw c ws a t =
     \<lparr>args_command = c, args_words = ws, args_accent = a,
      args_output_dir = (case raw_output_dir raw of None \<Rightarrow> Path ''pronunciations'' | Some s \<Rightarrow> Path s),
      args_timeout = t,
      args_verbose = raw_verbose raw,
      args_no_cache = raw_no_cache raw,
      args_force_download = raw_force_download raw\<rparr>"

text \<open>
  \<^verbatim>\<open>parse_args\<close>: \<open>Inl 2\<close> is the library's \<^verbatim>\<open>parser.error\<close>, which ends the process
  with status 2. Without a subcommand the namespace has \<^verbatim>\<open>command = None\<close>.
\<close>

definition parse_args :: "raw_args \<Rightarrow> int + Namespace" where
  "parse_args raw =
     (case (case raw_timeout raw of None \<Rightarrow> Some 10 | Some t \<Rightarrow> t) of
        None \<Rightarrow> Inl 2
      | Some t \<Rightarrow>
         (case raw_command raw of
            None \<Rightarrow>
              (if raw_words raw = [] \<and> raw_accent raw = None
               then Inr (global_options raw None None None t) else Inl 2)
          | Some c \<Rightarrow>
              (if c = ''download'' then
                 (if raw_words raw = [] then Inl 2
                  else (case raw_accent raw of
                          None \<Rightarrow> Inr (global_options raw (Some c) (Some (raw_words raw)) (Some ''all'') t)
                        | Some a \<Rightarrow>
                            (if a \<in> set [''gb'', ''us'', ''all'']
                             then Inr (global_options raw (Some c) (Some (raw_words raw)) (Some a) t)
                             else Inl 2)))
               else if c = ''cache-info'' \<or> c = ''clear-cache'' then
                 (if raw_accent raw = None
                  then Inr (global_options raw (Some c) (Some (raw_words raw)) None t)
                  else Inl 2)
               else Inl 2)))"

subsection \<open>\<^verbatim>\<open>process_words\<close>\<close>

text \<open>
  The body of the \<^verbatim>\<open>try\<close> up to the assignment of \<^verbatim>\<open>paths\<close>: the paths downloaded
  for one word, or the exception raised on the way.
\<close>

definition download_word ::
  "'w downloader_ops \<Rightarrow> downloader \<Rightarrow> string \<Rightarrow> string \<Rightarrow> 'w cli_state
     \<Rightarrow> (exn + Path list) \<times> 'w cli_state" where
  "download_word ops d accent word st =
     (if accent = ''all'' then download_all_accents ops d word st
      else (case AccentType_call accent st of
              (Inl e, st1) \<Rightarrow> (Inl e, st1)
            | (Inr a, st1) \<Rightarrow>
                (case download_pronunciation ops d word a st1 of
                   (Inl e, st2) \<Rightarrow> (Inl e, st2)
                 | (Inr path, st2) \<Rightarrow> (Inr (case path of Some p \<Rightarrow> [p] | None \<Rightarrow> []), st2))))"

text \<open>The \<^verbatim>\<open>for\<close> loop, with the flag \<^verbatim>\<open>success\<close> as accumulator.\<close>

fun process_loop ::
  "'w downloader_ops \<Rightarrow> downloader \<Rightarrow> string \<Rightarrow> string list \<Rightarrow> bool \<Rightarrow> 'w cli_state
     \<Rightarrow> bool \<times> 'w cli_state" where
  "process_loop ops d accent [] success st = (success, st)"
| "process_loop ops d accent (word # words) success st =
     (case download_word ops d accent word st of
        (Inr paths, st1) \<Rightarrow>
          (if paths = []
           then process_loop ops d accent words False
                  (logging_error (''No pronunciations downloaded for '' @ quoted word) st1)
           else process_loop ops d accent words success st1)
      | (Inl (DownloadError m), st1) \<Rightarrow>
          process_loop ops d accent words False
            (logging_error (''Error processing '' @ quoted word @ '': '' @ m) st1)
      | (Inl (CacheError m), st1) \<Rightarrow>
          process_loop ops d accent words False
            (logging_error (''Error processing '' @ quoted word @ '': '' @ m) st1)
      | (Inl (OtherException m), st1) \<Rightarrow>
          process_loop ops d accent words False
            (logging_error (''Unexpected error processing '' @ quoted word @ '': '' @ m) st1))"

text \<open>
  \<^verbatim>\<open>process_words\<close>: the constructor is called outside the \<^verbatim>\<open>try\<close>, so what it raises
  leaves the function.
\<close>

definition process_words ::
  "'w downloader_ops \<Rightarrow> string list \<Rightarrow> DownloadConfig \<Rightarrow> string \<Rightarrow> 'w cli_state
     \<Rightarrow> (exn + int) \<times> 'w cli_state" where
  "process_words ops words config accent st =
     (case GooglePronunciationDownloader ops config st of
        (Inl e, st1) \<Rightarrow> (Inl e, st1)
      | (Inr d, st1) \<Rightarrow>
          (case process_loop ops d accent words True st1 of
             (success, st2) \<Rightarrow> (Inr (if success then 0 else 1), st2)))"

text \<open>
  What the downloader answers when \<^verbatim>\<open>process_words\<close> turns to it for a word, read off
  the operations themselves: the list \<^verbatim>\<open>download_all_accents\<close> returns; for one
  accent the path \<^verbatim>\<open>download_pronunciation\<close> returns, as a list, or no path; or the
  exception raised. With it comes the world the operation leaves.
\<close>

definition asked ::
  "'w downloader_ops \<Rightarrow> DownloadConfig \<Rightarrow> string \<Rightarrow> string \<Rightarrow> 'w \<Rightarrow> (exn + Path list) \<times> 'w" where
  "asked ops config accent word w =
     (if accent = ''all'' then dl_download_all_accents ops config word w
      else (case AccentType_of accent of
              Inl e \<Rightarrow> (Inl e, w)
            | Inr a \<Rightarrow>
                (case dl_download_pronunciation ops config word a w of
                   (Inl e, w') \<Rightarrow> (Inl e, w')
                 | (Inr None, w') \<Rightarrow> (Inr [], w')
                 | (Inr (Some p), w') \<Rightarrow> (Inr [p], w'))))"

text \<open>
  The answers for a list of words asked for in order, each operation starting from the
  world the one before it left, and the world after the last.
\<close>

fun download_answers ::
  "'w downloader_ops \<Rightarrow> DownloadConfig \<Rightarrow> string \<Rightarrow> string list \<Rightarrow> 'w \<Rightarrow> (exn + Path list) list" where
  "download_answers ops config accent [] w = []"
| "download_answers ops config accent (word # words) w =
     fst (asked ops config accent word w)
       # download_answers ops config accent words (snd (asked ops config accent word w))"

fun download_world ::
  "'w downloader_ops \<Rightarrow> DownloadConfig \<Rightarrow> string \<Rightarrow> string list \<Rightarrow> 'w \<Rightarrow> 'w" where
  "download_world ops config accent [] w = w"
| "download_world ops config accent (word # words) w =
     download_world ops config accent words (snd (asked ops config accent word w))"

text \<open>The same for accent \<^verbatim>\<open>all\<close>, where only \<^verbatim>\<open>download_all_accents\<close> is asked.\<close>

fun all_accents_answers ::
  "'w downloader_ops \<Rightarrow> DownloadConfig \<Rightarrow> string list \<Rightarrow> 'w \<Rightarrow> (exn + Path list) list" where
  "all_accents_answers ops config [] w = []"
| "all_accents_answers ops config (word # words) w =
     fst (dl_download_all_accents ops config word w)
       # all_accents_answers ops config words (snd (dl_download_all_accents ops config word w))"

text \<open>A word produced at least one pronunciation file.\<close>

fun produced :: "exn + Path list \<Rightarrow> bool" where
  "produced (Inr paths) = (paths \<noteq> [])"
| "produced (Inl e) = False"

text \<open>The record to be logged for a word, given the answer of the downloader.\<close>

fun failure_record :: "string \<Rightarrow> exn + Path list \<Rightarrow> string list" where
  "failure_record word (Inr paths) =
     (if paths = [] then [''No pronunciations downloaded for '' @ quoted word] else [])"
| "failure_record word (Inl (DownloadError m)) =
     [''Error processing '' @ quoted word @ '': '' @ m]"
| "failure_record word (Inl (CacheError m)) =
     [''Error processing '' @ quoted word @ '': '' @ m]"
| "failure_record word (Inl (OtherException m)) =
     [''Unexpected error processing '' @ quoted word @ '': '' @ m]"

subsection \<open>\<^verbatim>\<open>show_cache_info\<close> and \<^verbatim>\<open>clear_cache\<close>\<close>

text \<open>
  The loop over the words, inside the \<^verbatim>\<open>try\<close>: an exception ends it. The heading
  is printed first; then \<^verbatim>\<open>info[word]\<close> raises \<^verbatim>\<open>KeyError\<close>, whose text is
  \<^verbatim>\<open>repr(word)\<close>, when the dictionary has no such key, and \<^verbatim>\<open>json.dumps\<close> raises
  on a value it has no encoding for; in both cases the second \<^verbatim>\<open>print\<close> never runs.
\<close>

fun cache_info_loop ::
  "'w downloader_ops \<Rightarrow> downloader \<Rightarrow> string list \<Rightarrow> 'w cli_state \<Rightarrow> (exn + unit) \<times> 'w cli_state" where
  "cache_info_loop ops d [] st = (Inr (), st)"
| "cache_info_loop ops d (word # words) st =
     (case get_cache_info ops d (Some word) st of
        (Inl e, st1) \<Rightarrow> (Inl e, st1)
      | (Inr info, st1) \<Rightarrow>
          (if info \<noteq> [] then
             (case map_of info word of
                None \<Rightarrow>
                  (Inl (OtherException (repr word)),
                   print (Text (CHR 0x0A # ''Cache info for '' @ quoted word @ '':'')) st1)
              | Some v \<Rightarrow>
                  (case json_dumps v of
                     Inl e \<Rightarrow>
                       (Inl e,
                        print (Text (CHR 0x0A # ''Cache info for '' @ quoted word @ '':'')) st1)
                   | Inr text \<Rightarrow>
                       cache_info_loop ops d words
                         (print text
                            (print (Text (CHR 0x0A # ''Cache info for '' @ quoted word @ '':''))
                               st1))))
           else cache_info_loop ops d words
                  (print (Text (''No cache info found for '' @ quoted word)) st1)))"

text \<open>The body of the \<^verbatim>\<open>try\<close> of \<^verbatim>\<open>show_cache_info\<close>.\<close>

definition cache_info_body ::
  "'w downloader_ops \<Rightarrow> downloader \<Rightarrow> string list \<Rightarrow> 'w cli_state \<Rightarrow> (exn + unit) \<times> 'w cli_state" where
  "cache_info_body ops d words st =
     (if words \<noteq> [] then cache_info_loop ops d words st
      else (case get_cache_info ops d None st of
              (Inl e, st1) \<Rightarrow> (Inl e, st1)
            | (Inr info, st1) \<Rightarrow>
                (if info \<noteq> [] then
                   (case json_dumps (JObj info) of
                      Inl e \<Rightarrow> (Inl e, print (Text (CHR 0x0A # ''Cache information:'')) st1)
                    | Inr text \<Rightarrow>
                        (Inr (), print text (print (Text (CHR 0x0A # ''Cache information:'')) st1)))
                 else (Inr (), print (Text ''No cached files found'') st1))))"

definition show_cache_info ::
  "'w downloader_ops \<Rightarrow> downloader \<Rightarrow> string list \<Rightarrow> 'w cli_state \<Rightarrow> int \<times> 'w cli_state" where
  "show_cache_info ops d words st =
     (case cache_info_body ops d words st of
        (Inr u, st1) \<Rightarrow> (0, st1)
      | (Inl e, st1) \<Rightarrow> (1, logging_error (''Error getting cache info: '' @ exn_str e) st1))"

fun clear_loop ::
  "'w downloader_ops \<Rightarrow> downloader \<Rightarrow> string list \<Rightarrow> 'w cli_state \<Rightarrow> (exn + unit) \<times> 'w cli_state" where
  "clear_loop ops d [] st = (Inr (), st)"
| "clear_loop ops d (word # words) st =
     (case downloader_clear_cache ops d (Some word) st of
        (Inl e, st1) \<Rightarrow> (Inl e, st1)
      | (Inr u, st1) \<Rightarrow> clear_loop ops d words st1)"

definition clear_cache ::
  "'w downloader_ops \<Rightarrow> downloader \<Rightarrow> string list \<Rightarrow> 'w cli_state \<Rightarrow> int \<times> 'w cli_state" where
  "clear_cache ops d words st =
     (case (if words \<noteq> [] then clear_loop ops d words st
            else downloader_clear_cache ops d None st) of
        (Inr u, st1) \<Rightarrow> (0, st1)
      | (Inl e, st1) \<Rightarrow> (1, logging_error (''Error clearing cache: '' @ exn_str e) st1))"

subsection \<open>\<^verbatim>\<open>main\<close>\<close>

text \<open>The call \<^verbatim>\<open>DownloadConfig(...)\<close> of \<^verbatim>\<open>main\<close>.\<close>

definition main_config :: "Namespace \<Rightarrow> DownloadConfig" where
  "main_config args =
     \<lparr>output_dir = args_output_dir args,
      timeout = args_timeout args,
      use_cache = (\<not> args_no_cache args),
      force_download = args_force_download args\<rparr>"

text \<open>Reading an attribute the namespace does not have raises \<^verbatim>\<open>AttributeError\<close>.\<close>

definition attribute_error :: "string \<Rightarrow> exn" where
  "attribute_error a =
     OtherException (quoted ''Namespace'' @ '' object has no attribute '' @ quoted a)"

text \<open>The body of the \<^verbatim>\<open>try\<close> of \<^verbatim>\<open>main\<close>: the dispatch on \<^verbatim>\<open>args.command\<close>.\<close>

definition run_command ::
  "'w downloader_ops \<Rightarrow> Namespace \<Rightarrow> DownloadConfig \<Rightarrow> downloader \<Rightarrow> 'w cli_state
     \<Rightarrow> (exn + int) \<times> 'w cli_state" where
  "run_command ops args config d st =
     (if args_command args = Some ''download'' then
        (case args_words args of
           None \<Rightarrow> (Inl (attribute_error ''words''), st)
         | Some ws \<Rightarrow>
             (case args_accent args of
                None \<Rightarrow> (Inl (attribute_error ''accent''), st)
              | Some a \<Rightarrow> process_words ops ws config a st))
      else if args_command args = Some ''cache-info'' then
        (case args_words args of
           None \<Rightarrow> (Inl (attribute_error ''words''), st)
         | Some ws \<Rightarrow> (case show_cache_info ops d ws st of (code, st1) \<Rightarrow> (Inr code, st1)))
      else if args_command args = Some ''clear-cache'' then
        (case args_words args of
           None \<Rightarrow> (Inl (attribute_error ''words''), st)
         | Some ws \<Rightarrow> (case clear_cache ops d ws st of (code, st1) \<Rightarrow> (Inr code, st1)))
      else (Inr 1, logging_error ''No command specified. Use --help for usage information.'' st))"

text \<open>
  How a run of \<^verbatim>\<open>main\<close> ends: it returns a code, the parser has ended the process, or
  an exception has left \<^verbatim>\<open>main\<close> (the constructor of the downloader is called before the
  \<^verbatim>\<open>try\<close>).
\<close>

datatype outcome = Returned int | SystemExit int | Uncaught exn

definition main :: "'w downloader_ops \<Rightarrow> raw_args \<Rightarrow> 'w \<Rightarrow> outcome \<times> 'w cli_state" where
  "main ops raw w =
     (case parse_args raw of
        Inl status \<Rightarrow> (SystemExit status, start w)
      | Inr args \<Rightarrow>
          (case GooglePronunciationDownloader ops (main_config args)
                  (setup_logging (args_verbose args) (start w)) of
             (Inl e, st1) \<Rightarrow> (Uncaught e, st1)
           | (Inr d, st1) \<Rightarrow>
               (case run_command ops args (main_config args) d st1 of
                  (Inr code, st2) \<Rightarrow> (Returned code, st2)
                | (Inl e, st2) \<Rightarrow>
                    (Returned 1, logging_error (''Fatal error: '' @ exn_str e) st2))))"

text \<open>
  \<^verbatim>\<open>sys.exit(main())\<close>: the status of the process. The interpreter ends with status 1
  on an exception nobody caught.
\<close>

fun exit_status :: "outcome \<Rightarrow> int" where
  "exit_status (Returned code) = code"
| "exit_status (SystemExit status) = status"
| "exit_status (Uncaught e) = 1"

subsection \<open>Notions the properties are stated with\<close>

text \<open>The calls one pass of the loop of \<^verbatim>\<open>process_words\<close> makes for a word.\<close>

definition word_calls :: "DownloadConfig \<Rightarrow> string \<Rightarrow> string \<Rightarrow> call list" where
  "word_calls config accent word =
     (if accent = ''all'' then [Call_download_all_accents config word]
      else Call_AccentType accent #
        (case AccentType_of accent of
           Inl e \<Rightarrow> []
         | Inr a \<Rightarrow> [Call_download_pronunciation config word a]))"

text \<open>A call hands the downloader the configuration \<open>config\<close>, or none at all.\<close>

definition hands_over :: "DownloadConfig \<Rightarrow> call \<Rightarrow> bool" where
  "hands_over config c = (call_config c = None \<or> call_config c = Some config)"

text \<open>A call is not an enum conversion, or it converts \<^verbatim>\<open>gb\<close> or \<^verbatim>\<open>us\<close>.\<close>

fun converts_accent :: "call \<Rightarrow> bool" where
  "converts_accent (Call_AccentType s) = (s = ''gb'' \<or> s = ''us'')"
| "converts_accent (Call_init c) = True"
| "converts_accent (Call_download_all_accents c w) = True"
| "converts_accent (Call_download_pronunciation c w a) = True"
| "converts_accent (Call_get_cache_info c w) = True"
| "converts_accent (Call_clear_cache c w) = True"

text \<open>The words of the download calls among a list of calls, in order.\<close>

definition downloaded_words :: "call list \<Rightarrow> string list" where
  "downloaded_words cs = List.map_filter call_word cs"






text \<open>
  A downloader that notes, beside what it does, every configuration it is handed: each
  operation of \<open>ops\<close> runs on the first component of the world, and the configuration it
  received is added to the second.
\<close>

definition recording :: "'w downloader_ops \<Rightarrow> ('w \<times> DownloadConfig list) downloader_ops" where
  "recording ops =
     \<lparr>dl_init = (\<lambda>c w.
        (fst (dl_init ops c (fst w)), (snd (dl_init ops c (fst w)), snd w @ [c]))),
      dl_download_all_accents = (\<lambda>c word w.
        (fst (dl_download_all_accents ops c word (fst w)),
         (snd (dl_download_all_accents ops c word (fst w)), snd w @ [c]))),
      dl_download_pronunciation = (\<lambda>c word a w.
        (fst (dl_download_pronunciation ops c word a (fst w)),
         (snd (dl_download_pronunciation ops c word a (fst w)), snd w @ [c]))),
      dl_get_cache_info = (\<lambda>c word w.
        (fst (dl_get_cache_info ops c word (fst w)),
         (snd (dl_get_cache_info ops c word (fst w)), snd w @ [c]))),
      dl_clear_cache = (\<lambda>c word w.
        (fst (dl_clear_cache ops c word (fst w)),
         (snd (dl_clear_cache ops c word (fst w)), snd w @ [c])))\<rparr>"

text \<open>
  The notes of a recording downloader agree with the calls of the run: they are the
  configurations of the calls, in order.
\<close>

definition notes_match :: "('w \<times> DownloadConfig list) cli_state \<Rightarrow> bool" where
  "notes_match st = (snd (world st) = List.map_filter call_config (calls st))"

subsection \<open>Three downloaders and a command line to run the model on\<close>

text \<open>
  A downloader over a world that is the list of the words in the cache. Its service
  knows \<^verbatim>\<open>hello\<close> in both accents and \<^verbatim>\<open>cat\<close> in the British one only, times out on
  \<^verbatim>\<open>boom\<close> and has nothing for any other word.
\<close>

definition demo_ops :: "string list downloader_ops" where
  "demo_ops =
     \<lparr>dl_init = (\<lambda>c w. (Inr (), w)),
      dl_download_all_accents = (\<lambda>c word w.
        if word = ''hello'' then (Inr [Path ''hello/gb.mp3'', Path ''hello/us.mp3''], word # w)
        else if word = ''cat'' then (Inr [Path ''cat/gb.mp3''], word # w)
        else if word = ''boom'' then (Inl (DownloadError ''timed out''), w)
        else (Inr [], w)),
      dl_download_pronunciation = (\<lambda>c word a w.
        if word = ''hello'' then
          (Inr (Some (Path (if a = GB then ''hello/gb.mp3'' else ''hello/us.mp3''))), word # w)
        else if word = ''cat'' \<and> a = GB then (Inr (Some (Path ''cat/gb.mp3'')), word # w)
        else if word = ''boom'' then (Inl (DownloadError ''timed out''), w)
        else (Inr None, w)),
      dl_get_cache_info = (\<lambda>c word w.
        case word of
          None \<Rightarrow> (Inr (map (\<lambda>x. (x, JObj [(''cached'', JBool True)])) w), w)
        | Some x \<Rightarrow>
            (if x \<in> set w then Inr [(x, JObj [(''cached'', JBool True)])] else Inr [], w)),
      dl_clear_cache = (\<lambda>c word w.
        (Inr (), case word of None \<Rightarrow> [] | Some x \<Rightarrow> removeAll x w))\<rparr>"

text \<open>
  A downloader over a world that counts the objects constructed: the first construction
  succeeds, every later one fails, and every method raises.
\<close>

definition broken_ops :: "nat downloader_ops" where
  "broken_ops =
     \<lparr>dl_init = (\<lambda>c n.
        (if n = 0 then Inr () else Inl (OtherException ''cannot create directory''), Suc n)),
      dl_download_all_accents = (\<lambda>c word n. (Inl (DownloadError ''no network''), n)),
      dl_download_pronunciation = (\<lambda>c word a n. (Inl (DownloadError ''no network''), n)),
      dl_get_cache_info = (\<lambda>c word n. (Inl (CacheError ''corrupt metadata''), n)),
      dl_clear_cache = (\<lambda>c word n. (Inl (CacheError ''corrupt metadata''), n))\<rparr>"

text \<open>
  A downloader whose cache information holds the path of each file as a \<^verbatim>\<open>Path\<close>
  object, which \<^verbatim>\<open>json.dumps\<close> has no encoding for. It has an entry for every word
  but \<^verbatim>\<open>nothing\<close>.
\<close>

definition path_ops :: "unit downloader_ops" where
  "path_ops =
     \<lparr>dl_init = (\<lambda>c w. (Inr (), w)),
      dl_download_all_accents = (\<lambda>c word w. (Inr [], w)),
      dl_download_pronunciation = (\<lambda>c word a w. (Inr None, w)),
      dl_get_cache_info = (\<lambda>c word w.
        case word of
          None \<Rightarrow>
            (Inr [(''hello'',
                   JObj [(''path'', JRejected ''Object of type PosixPath is not JSON serializable'')])],
             w)
        | Some x \<Rightarrow>
            (if x = ''nothing'' then Inr []
             else Inr [(x, JObj [(''path'',
                          JRejected ''Object of type PosixPath is not JSON serializable'')])],
             w)),
      dl_clear_cache = (\<lambda>c word w. (Inr (), w))\<rparr>"

text \<open>A command line with a subcommand, words and possibly an accent, and no option.\<close>

definition command_line :: "string \<Rightarrow> string list \<Rightarrow> string option \<Rightarrow> raw_args" where
  "command_line c ws a =
     \<lparr>raw_output_dir = None, raw_timeout = None, raw_verbose = False, raw_no_cache = False,
      raw_force_download = False, raw_command = Some c, raw_words = ws, raw_accent = a\<rparr>"

section \<open>Properties\<close>

subsection \<open>The state after a call\<close>

lemma invoke_eq:
  "invoke c f st = (fst (f (world st)), st\<lparr>world := snd (f (world st)), calls := calls st @ [c]\<rparr>)"
  by (simp add: invoke_def split: prod.splits)

lemma logging_error_fields:
  "logged (logging_error m st) = logged st @ [m]"
  "calls (logging_error m st) = calls st"
  "world (logging_error m st) = world st"
  "printed (logging_error m st) = printed st"
  "log_level (logging_error m st) = log_level st"
  by (simp_all add: logging_error_def)

lemma print_fields:
  "printed (print x st) = printed st @ [x]"
  "calls (print x st) = calls st"
  "world (print x st) = world st"
  "logged (print x st) = logged st"
  "log_level (print x st) = log_level st"
  by (simp_all add: print_def)

lemma constructor_eq:
  "GooglePronunciationDownloader ops config st =
     (case fst (dl_init ops config (world st)) of
        Inl e \<Rightarrow> Inl e
      | Inr u \<Rightarrow> Inr (Downloader config),
      st\<lparr>world := snd (dl_init ops config (world st)), calls := calls st @ [Call_init config]\<rparr>)"
  by (simp add: GooglePronunciationDownloader_def invoke_eq split: sum.splits)

lemma constructor_Inr:
  assumes "GooglePronunciationDownloader ops config st = (Inr d, st1)"
  shows "d = Downloader config" and "calls st1 = calls st @ [Call_init config]"
    and "logged st1 = logged st" and "printed st1 = printed st"
  using assms by (auto simp: constructor_eq split: sum.splits)

lemma get_cache_info_eq:
  "get_cache_info ops d word st =
     (fst (dl_get_cache_info ops (config_of d) word (world st)),
      st\<lparr>world := snd (dl_get_cache_info ops (config_of d) word (world st)),
         calls := calls st @ [Call_get_cache_info (config_of d) word]\<rparr>)"
  by (simp add: get_cache_info_def invoke_eq)

lemma downloader_clear_cache_eq:
  "downloader_clear_cache ops d word st =
     (fst (dl_clear_cache ops (config_of d) word (world st)),
      st\<lparr>world := snd (dl_clear_cache ops (config_of d) word (world st)),
         calls := calls st @ [Call_clear_cache (config_of d) word]\<rparr>)"
  by (simp add: downloader_clear_cache_def invoke_eq)

text \<open>
  One pass of the loop of \<^verbatim>\<open>process_words\<close> gets from the downloader what
  \<open>asked\<close> says, and leaves its world.
\<close>

lemma download_word_eq:
  "download_word ops d accent word st =
     (fst (asked ops (config_of d) accent word (world st)),
      st\<lparr>world := snd (asked ops (config_of d) accent word (world st)),
         calls := calls st @ word_calls (config_of d) accent word\<rparr>)"
proof (cases "accent = ''all''")
  case True
  then show ?thesis
    by (simp add: download_word_def download_all_accents_def invoke_eq asked_def word_calls_def)
next
  case False
  show ?thesis
  proof (cases "AccentType_of accent")
    case (Inl e)
    with False show ?thesis
      by (simp add: download_word_def AccentType_call_def asked_def word_calls_def)
  next
    case (Inr a)
    obtain r w' where q: "dl_download_pronunciation ops (config_of d) word a (world st) = (r, w')"
      by (cases "dl_download_pronunciation ops (config_of d) word a (world st)")
    show ?thesis
    proof (cases r)
      case (Inl e)
      with False Inr q show ?thesis
        by (simp add: download_word_def AccentType_call_def download_pronunciation_def invoke_eq
            asked_def word_calls_def)
    next
      case p: (Inr path)
      with False Inr q show ?thesis
        by (cases path)
           (simp_all add: download_word_def AccentType_call_def download_pronunciation_def
            invoke_eq asked_def word_calls_def)
    qed
  qed
qed

lemma process_loop_run:
  "process_loop ops d accent ws b st =
     (b \<and> list_all produced (download_answers ops (config_of d) accent ws (world st)),
      st\<lparr>world := download_world ops (config_of d) accent ws (world st),
         logged := logged st @ concat (map2 failure_record ws
                     (download_answers ops (config_of d) accent ws (world st))),
         calls := calls st @ concat (map (word_calls (config_of d) accent) ws)\<rparr>)"
proof (induction ws arbitrary: b st)
  case Nil
  show ?case by simp
next
  case (Cons word ws)
  obtain r w' where a: "asked ops (config_of d) accent word (world st) = (r, w')"
    by (cases "asked ops (config_of d) accent word (world st)")
  show ?case
  proof (cases "(word, r)" rule: failure_record.cases)
    case (1 word' paths)
    with a show ?thesis
      by (cases "paths = []")
         (simp_all add: download_word_eq Cons.IH logging_error_def)
  next
    case (2 word' m)
    with a show ?thesis
      by (simp add: download_word_eq Cons.IH logging_error_def)
  next
    case (3 word' m)
    with a show ?thesis
      by (simp add: download_word_eq Cons.IH logging_error_def)
  next
    case (4 word' m)
    with a show ?thesis
      by (simp add: download_word_eq Cons.IH logging_error_def)
  qed
qed

lemma process_words_eq:
  "process_words ops ws config accent st =
     (case dl_init ops config (world st) of
        (Inl e, w1) \<Rightarrow> (Inl e, st\<lparr>world := w1, calls := calls st @ [Call_init config]\<rparr>)
      | (Inr u, w1) \<Rightarrow>
          (Inr (if list_all produced (download_answers ops config accent ws w1) then 0 else 1),
           st\<lparr>world := download_world ops config accent ws w1,
              logged := logged st @ concat (map2 failure_record ws
                          (download_answers ops config accent ws w1)),
              calls := calls st @ Call_init config # concat (map (word_calls config accent) ws)\<rparr>))"
proof -
  obtain r w1 where i: "dl_init ops config (world st) = (r, w1)"
    by (cases "dl_init ops config (world st)")
  show ?thesis
    by (cases r) (simp_all add: process_words_def constructor_eq i process_loop_run)
qed

lemma all_accents_answers_eq:
  "download_answers ops config ''all'' ws w = all_accents_answers ops config ws w"
  by (induction ws arbitrary: w) (simp_all add: asked_def)

lemma parse_args_Inr:
  assumes "parse_args raw = Inr args"
  shows "args_output_dir args =
           (case raw_output_dir raw of None \<Rightarrow> Path ''pronunciations'' | Some s \<Rightarrow> Path s)
       \<and> args_verbose args = raw_verbose raw
       \<and> args_no_cache args = raw_no_cache raw
       \<and> args_force_download args = raw_force_download raw
       \<and> args_command args = raw_command raw
       \<and> (raw_timeout raw = None \<longrightarrow> args_timeout args = 10)
       \<and> (\<forall>x. raw_timeout raw = Some (Some x) \<longrightarrow> args_timeout args = x)
       \<and> (raw_command raw = Some ''download'' \<longrightarrow>
              raw_words raw \<noteq> []
            \<and> args_accent args = Some (case raw_accent raw of None \<Rightarrow> ''all'' | Some x \<Rightarrow> x)
            \<and> (case raw_accent raw of None \<Rightarrow> ''all'' | Some x \<Rightarrow> x) \<in> set [''gb'', ''us'', ''all''])
       \<and> (raw_command raw \<noteq> None \<longrightarrow> args_words args = Some (raw_words raw))"
proof (cases "case raw_timeout raw of None \<Rightarrow> Some 10 | Some t \<Rightarrow> t")
  case None
  with assms show ?thesis by (simp add: parse_args_def)
next
  case (Some t)
  have t1: "raw_timeout raw = None \<longrightarrow> t = 10" and t2: "\<forall>x. raw_timeout raw = Some (Some x) \<longrightarrow> t = x"
    using Some by (simp_all split: option.splits)
  show ?thesis
  proof (cases "raw_command raw")
    case None
    have "args = global_options raw None None None t"
      using assms Some None by (simp add: parse_args_def split: if_splits)
    with t1 t2 None show ?thesis by (simp add: global_options_def)
  next
    case c: (Some c)
    show ?thesis
    proof (cases "c = ''download''")
      case True
      show ?thesis
      proof (cases "raw_accent raw")
        case None
        have "args = global_options raw (Some c) (Some (raw_words raw)) (Some ''all'') t \<and> raw_words raw \<noteq> []"
          using assms Some c True None by (simp add: parse_args_def split: if_splits)
        with t1 t2 c None show ?thesis by (simp add: global_options_def)
      next
        case a: (Some a)
        have "args = global_options raw (Some c) (Some (raw_words raw)) (Some a) t \<and> raw_words raw \<noteq> []
              \<and> a \<in> set [''gb'', ''us'', ''all'']"
          using assms Some c True a by (simp add: parse_args_def split: if_splits)
        with t1 t2 c a show ?thesis by (simp add: global_options_def)
      qed
    next
      case False
      have "args = global_options raw (Some c) (Some (raw_words raw)) None t"
        using assms Some c False by (simp add: parse_args_def split: if_splits)
      with t1 t2 c False show ?thesis by (simp add: global_options_def)
    qed
  qed
qed

lemma parse_args_globals:
  assumes "parse_args raw = Inr args"
  shows "args_output_dir args = (case raw_output_dir raw of None \<Rightarrow> Path ''pronunciations'' | Some s \<Rightarrow> Path s)"
    and "args_verbose args = raw_verbose raw"
    and "args_no_cache args = raw_no_cache raw"
    and "args_force_download args = raw_force_download raw"
    and "args_command args = raw_command raw"
    and "raw_timeout raw = None \<Longrightarrow> args_timeout args = 10"
    and "raw_timeout raw = Some (Some t) \<Longrightarrow> args_timeout args = t"
  using parse_args_Inr [OF assms] by blast+

lemma parse_args_download:
  assumes "parse_args raw = Inr args" and "raw_command raw = Some ''download''"
  shows "args_words args = Some (raw_words raw)"
    and "args_accent args = Some (case raw_accent raw of None \<Rightarrow> ''all'' | Some a \<Rightarrow> a)"
    and "raw_words raw \<noteq> []"
    and "(case raw_accent raw of None \<Rightarrow> ''all'' | Some a \<Rightarrow> a) \<in> set [''gb'', ''us'', ''all'']"
  using parse_args_Inr [OF assms(1)] assms(2) by blast+

lemma parse_args_words:
  assumes "parse_args raw = Inr args" and "raw_command raw = Some c"
  shows "args_words args = Some (raw_words raw)"
  using parse_args_Inr [OF assms(1)] assms(2) by blast

text \<open>
  Claim C8: for every command line that leaves out \<^verbatim>\<open>-o/--output-dir\<close>, the parsed
  output directory is the path \<^verbatim>\<open>pronunciations\<close>, and for every command line that
  leaves out \<^verbatim>\<open>-t/--timeout\<close>, the parsed timeout is 10.
\<close>

theorem parse_args_defaults:
  assumes "parse_args raw = Inr args"
  shows "(raw_output_dir raw = None \<longrightarrow> args_output_dir args = Path ''pronunciations'')
       \<and> (raw_timeout raw = None \<longrightarrow> args_timeout args = 10)"
proof -
  have "args_output_dir args =
          (case raw_output_dir raw of None \<Rightarrow> Path ''pronunciations'' | Some s \<Rightarrow> Path s)"
    and "raw_timeout raw = None \<longrightarrow> args_timeout args = 10"
    using parse_args_Inr [OF assms] by blast+
  then show ?thesis by simp
qed

theorem parse_args_defaults_witness:
  "parse_args (command_line ''download'' [''hello''] None)
     = Inr (global_options (command_line ''download'' [''hello''] None)
              (Some ''download'') (Some [''hello'']) (Some ''all'') 10)
   \<and> args_output_dir (global_options (command_line ''download'' [''hello''] None)
              (Some ''download'') (Some [''hello'']) (Some ''all'') 10) = Path ''pronunciations''
   \<and> args_timeout (global_options (command_line ''download'' [''hello''] None)
              (Some ''download'') (Some [''hello'']) (Some ''all'') 10) = 10"
proof -
  have p: "parse_args (command_line ''download'' [''hello''] None)
     = Inr (global_options (command_line ''download'' [''hello''] None)
              (Some ''download'') (Some [''hello'']) (Some ''all'') 10)"
    by (simp add: parse_args_def command_line_def)
  show ?thesis
    using p parse_args_defaults [OF p] by (simp add: command_line_def)
qed

lemma main_parsed:
  assumes "parse_args raw = Inr args"
  shows "main ops raw w =
     (case GooglePronunciationDownloader ops (main_config args)
             (setup_logging (args_verbose args) (start w)) of
        (Inl e, st1) \<Rightarrow> (Uncaught e, st1)
      | (Inr d, st1) \<Rightarrow>
          (case run_command ops args (main_config args) d st1 of
             (Inr code, st2) \<Rightarrow> (Returned code, st2)
           | (Inl e, st2) \<Rightarrow> (Returned 1, logging_error (''Fatal error: '' @ exn_str e) st2)))"
  using assms by (simp add: main_def)

lemma run_command_download:
  assumes "parse_args raw = Inr args" and "raw_command raw = Some ''download''"
  shows "run_command ops args config d st =
     process_words ops (raw_words raw) config (case raw_accent raw of None \<Rightarrow> ''all'' | Some a \<Rightarrow> a) st"
  using parse_args_download(1,2) [OF assms] parse_args_globals(5) [OF assms(1)] assms(2)
  by (simp add: run_command_def)


text \<open>
  Claim C1: for every invocation of the download command, the exit status of the process
  is 0 when every requested word produced at least one pronunciation file, and 1 when
  at least one word produced none, because the downloader returned nothing or because it
  raised. What a word produced is read off the downloader's own operations
  (\<open>download_answers\<close>). The two cases before the loop are covered as well: when a
  construction of the downloader raises, no word produces a file and the status is 1.
\<close>

theorem download_exit_status:
  assumes "parse_args raw = Inr args" and "raw_command raw = Some ''download''"
  shows "exit_status (fst (main ops raw w)) =
     (case dl_init ops (main_config args) w of
        (Inl e, w1) \<Rightarrow> 1
      | (Inr u, w1) \<Rightarrow>
          (case dl_init ops (main_config args) w1 of
             (Inl e, w2) \<Rightarrow> 1
           | (Inr u', w2) \<Rightarrow>
               (if list_all produced
                     (download_answers ops (main_config args)
                        (case raw_accent raw of None \<Rightarrow> ''all'' | Some a \<Rightarrow> a)
                        (raw_words raw) w2)
                then 0 else 1)))"
proof -
  obtain r1 w1 where i1: "dl_init ops (main_config args) w = (r1, w1)"
    by (cases "dl_init ops (main_config args) w")
  obtain r2 w2 where i2: "dl_init ops (main_config args) w1 = (r2, w2)"
    by (cases "dl_init ops (main_config args) w1")
  show ?thesis
  proof (cases r1)
    case (Inl e)
    then show ?thesis
      by (simp add: main_parsed [OF assms(1)] constructor_eq setup_logging_def start_def i1)
  next
    case (Inr u)
    then show ?thesis
      by (cases r2)
         (simp_all add: main_parsed [OF assms(1)] constructor_eq setup_logging_def start_def i1
          run_command_download [OF assms] process_words_eq i2)
  qed
qed

theorem download_exit_status_witness:
  "exit_status (fst (main demo_ops (command_line ''download'' [''hello'', ''cat''] None) [])) = 0
   \<and> exit_status (fst (main demo_ops (command_line ''download'' [''hello'', ''xyz123''] None) [])) = 1
   \<and> exit_status (fst (main demo_ops (command_line ''download'' [''hello''] (Some ''gb'')) [])) = 0
   \<and> exit_status (fst (main demo_ops (command_line ''download'' [''xyz123''] (Some ''us'')) [])) = 1
   \<and> exit_status (fst (main demo_ops (command_line ''download'' [''boom''] (Some ''us'')) [])) = 1"
proof -
  have p: "parse_args (command_line ''download'' ws a)
      = Inr (global_options (command_line ''download'' ws a) (Some ''download'') (Some ws)
               (Some (case a of None \<Rightarrow> ''all'' | Some x \<Rightarrow> x)) 10)"
    if "ws \<noteq> []" and "a \<in> {None, Some ''gb'', Some ''us''}" for ws a
    using that by (auto simp: parse_args_def command_line_def)
  have c: "raw_command (command_line ''download'' ws a) = Some ''download''" for ws a
    by (simp add: command_line_def)
  have e1: "exit_status (fst (main demo_ops (command_line ''download'' [''hello'', ''cat''] None) [])) = 0"
    using download_exit_status [OF p c, of "[''hello'', ''cat'']" None demo_ops "[]"]
    by (simp add: command_line_def demo_ops_def asked_def)
  have e2: "exit_status (fst (main demo_ops (command_line ''download'' [''hello'', ''xyz123''] None) [])) = 1"
    using download_exit_status [OF p c, of "[''hello'', ''xyz123'']" None demo_ops "[]"]
    by (simp add: command_line_def demo_ops_def asked_def)
  have e3: "exit_status (fst (main demo_ops (command_line ''download'' [''hello''] (Some ''gb'')) [])) = 0"
    using download_exit_status [OF p c, of "[''hello'']" "Some ''gb''" demo_ops "[]"]
    by (simp add: command_line_def demo_ops_def asked_def AccentType_of_def)
  have e4: "exit_status (fst (main demo_ops (command_line ''download'' [''xyz123''] (Some ''us'')) [])) = 1"
    using download_exit_status [OF p c, of "[''xyz123'']" "Some ''us''" demo_ops "[]"]
    by (simp add: command_line_def demo_ops_def asked_def AccentType_of_def)
  have e5: "exit_status (fst (main demo_ops (command_line ''download'' [''boom''] (Some ''us'')) [])) = 1"
    using download_exit_status [OF p c, of "[''boom'']" "Some ''us''" demo_ops "[]"]
    by (simp add: command_line_def demo_ops_def asked_def AccentType_of_def)
  show ?thesis
    using e1 e2 e3 e4 e5 by simp
qed

subsection \<open>The loop of \<^verbatim>\<open>process_words\<close>\<close>

lemma downloaded_words_append:
  "downloaded_words (xs @ ys) = downloaded_words xs @ downloaded_words ys"
  by (simp add: downloaded_words_def List.map_filter_def)

lemma downloaded_words_word_calls:
  assumes "accent \<in> set [''all'', ''gb'', ''us'']"
  shows "downloaded_words (word_calls config accent word) = [word]"
proof -
  consider "accent = ''all''" | "accent = ''gb''" | "accent = ''us''"
    using assms by auto
  then show ?thesis
    by cases (simp_all add: downloaded_words_def word_calls_def AccentType_of_def)
qed

lemma downloaded_words_loop:
  assumes "accent \<in> set [''all'', ''gb'', ''us'']"
  shows "downloaded_words (concat (map (word_calls config accent) ws)) = ws"
  by (induction ws)
     (simp_all add: downloaded_words_append downloaded_words_word_calls [OF assms],
      simp add: downloaded_words_def)

text \<open>
  Claim C2: a failure while processing one word (a raised \<^verbatim>\<open>DownloadError\<close>,
  \<^verbatim>\<open>CacheError\<close> or any other exception, or no file produced) is caught and logged at
  the boundary of that word, and every remaining word of the list is still processed.
  Once the downloader is constructed, \<^verbatim>\<open>process_words\<close> returns a code; for each word
  on which the downloader raised or returned nothing it has logged one record, and none
  for the others; the downloader has been asked for every word of the list, in order, so
  that its world is the one all these operations leave.
\<close>

theorem process_words_continues:
  assumes "dl_init ops config (world st) = (Inr (), w1)"
  shows "fst (process_words ops words config accent st)
           = Inr (if list_all produced (download_answers ops config accent words w1) then 0 else 1)
       \<and> logged (snd (process_words ops words config accent st))
           = logged st @ concat (map2 failure_record words
                                   (download_answers ops config accent words w1))
       \<and> world (snd (process_words ops words config accent st))
           = download_world ops config accent words w1
       \<and> (accent \<in> set [''all'', ''gb'', ''us''] \<longrightarrow>
            downloaded_words (calls (snd (process_words ops words config accent st)))
              = downloaded_words (calls st) @ words)"
proof -
  have i: "downloaded_words [Call_init config] = []"
    by (simp add: downloaded_words_def)
  show ?thesis
    using downloaded_words_append [of "calls st" "Call_init config #
        concat (map (word_calls config accent) words)"]
      downloaded_words_append [of "[Call_init config]"
        "concat (map (word_calls config accent) words)"]
    by (simp add: process_words_eq assms i downloaded_words_loop)
qed

theorem process_words_continues_witness:
  "fst (process_words demo_ops [''boom'', ''xyz123'', ''hello'']
          \<lparr>output_dir = Path ''out'', timeout = 10, use_cache = True, force_download = False\<rparr>
          ''us'' (start [])) = Inr 1
   \<and> logged (snd (process_words demo_ops [''boom'', ''xyz123'', ''hello'']
          \<lparr>output_dir = Path ''out'', timeout = 10, use_cache = True, force_download = False\<rparr>
          ''us'' (start [])))
       = [''Error processing '' @ quoted ''boom'' @ '': timed out'',
          ''No pronunciations downloaded for '' @ quoted ''xyz123'']
   \<and> world (snd (process_words demo_ops [''boom'', ''xyz123'', ''hello'']
          \<lparr>output_dir = Path ''out'', timeout = 10, use_cache = True, force_download = False\<rparr>
          ''us'' (start []))) = [''hello'']
   \<and> downloaded_words (calls (snd (process_words demo_ops [''boom'', ''xyz123'', ''hello'']
          \<lparr>output_dir = Path ''out'', timeout = 10, use_cache = True, force_download = False\<rparr>
          ''us'' (start []))))
       = [''boom'', ''xyz123'', ''hello'']"
proof -
  let ?cfg = "\<lparr>output_dir = Path ''out'', timeout = 10, use_cache = True, force_download = False\<rparr>"
  have i: "dl_init demo_ops ?cfg (world (start [])) = (Inr (), [])"
    by (simp add: demo_ops_def start_def)
  have a: "download_answers demo_ops ?cfg ''us'' [''boom'', ''xyz123'', ''hello''] []
      = [Inl (DownloadError ''timed out''), Inr [], Inr [Path ''hello/us.mp3'']]"
    and w: "download_world demo_ops ?cfg ''us'' [''boom'', ''xyz123'', ''hello''] [] = [''hello'']"
    by (simp_all add: asked_def AccentType_of_def demo_ops_def)
  show ?thesis
    using process_words_continues [OF i, of "[''boom'', ''xyz123'', ''hello'']" "''us''",
        unfolded a w]
    by (simp add: start_def downloaded_words_def)
qed

text \<open>
  Claim C3: for a word downloaded with accent \<^verbatim>\<open>all\<close>, partial failure across accents
  is not an error. A word for which \<^verbatim>\<open>download_all_accents\<close> returns a list that is not
  empty (one accent is enough) counts as a success: no record is logged for it, no
  exception leaves \<^verbatim>\<open>process_words\<close>, and the code returned is 0 unless another word
  fails. Of the lists the operation can return, only the empty one makes the word a
  failure, with the record \<^verbatim>\<open>No pronunciations downloaded\<close> and the code 1.
\<close>

theorem partial_success_counts:
  assumes "dl_init ops config (world st) = (Inr (), w1)"
  shows "fst (process_words ops words config ''all'' st)
           = Inr (if list_all produced (all_accents_answers ops config words w1) then 0 else 1)
       \<and> logged (snd (process_words ops words config ''all'' st))
           = logged st @ concat (map2 failure_record words
                                   (all_accents_answers ops config words w1))"
  by (simp add: process_words_eq assms all_accents_answers_eq)

theorem partial_success_counts_witness:
  "all_accents_answers demo_ops \<lparr>output_dir = Path ''out'', timeout = 10, use_cache = True,
       force_download = False\<rparr> [''cat'', ''hello''] []
     = [Inr [Path ''cat/gb.mp3''], Inr [Path ''hello/gb.mp3'', Path ''hello/us.mp3'']]
   \<and> fst (process_words demo_ops [''cat'', ''hello'']
          \<lparr>output_dir = Path ''out'', timeout = 10, use_cache = True, force_download = False\<rparr>
          ''all'' (start [])) = Inr 0
   \<and> logged (snd (process_words demo_ops [''cat'', ''hello'']
          \<lparr>output_dir = Path ''out'', timeout = 10, use_cache = True, force_download = False\<rparr>
          ''all'' (start []))) = []
   \<and> all_accents_answers demo_ops \<lparr>output_dir = Path ''out'', timeout = 10, use_cache = True,
       force_download = False\<rparr> [''cat'', ''xyz123''] []
     = [Inr [Path ''cat/gb.mp3''], Inr []]
   \<and> fst (process_words demo_ops [''cat'', ''xyz123'']
          \<lparr>output_dir = Path ''out'', timeout = 10, use_cache = True, force_download = False\<rparr>
          ''all'' (start [])) = Inr 1
   \<and> logged (snd (process_words demo_ops [''cat'', ''xyz123'']
          \<lparr>output_dir = Path ''out'', timeout = 10, use_cache = True, force_download = False\<rparr>
          ''all'' (start []))) = [''No pronunciations downloaded for '' @ quoted ''xyz123'']"
proof -
  let ?cfg = "\<lparr>output_dir = Path ''out'', timeout = 10, use_cache = True, force_download = False\<rparr>"
  have i: "dl_init demo_ops ?cfg (world (start [])) = (Inr (), [])"
    by (simp add: demo_ops_def start_def)
  have a1: "all_accents_answers demo_ops ?cfg [''cat'', ''hello''] []
      = [Inr [Path ''cat/gb.mp3''], Inr [Path ''hello/gb.mp3'', Path ''hello/us.mp3'']]"
    and a2: "all_accents_answers demo_ops ?cfg [''cat'', ''xyz123''] []
      = [Inr [Path ''cat/gb.mp3''], Inr []]"
    by (simp_all add: demo_ops_def)
  show ?thesis
    using a1 a2
      partial_success_counts [OF i, of "[''cat'', ''hello'']", unfolded a1]
      partial_success_counts [OF i, of "[''cat'', ''xyz123'']", unfolded a2]
    by (simp add: start_def)
qed

subsection \<open>What holds throughout a run\<close>

text \<open>
  A property of the state that the calls on the downloader, \<^verbatim>\<open>print\<close> and
  \<^verbatim>\<open>logging.error\<close> keep is kept by every function of the CLI.
\<close>

lemma cache_info_loop_inv:
  assumes gi: "\<And>w st. I st \<Longrightarrow> I (snd (get_cache_info ops d w st))"
    and pr: "\<And>x st. I st \<Longrightarrow> I (print x st)"
  shows "I st \<Longrightarrow> I (snd (cache_info_loop ops d ws st))"
proof (induction ws arbitrary: st)
  case Nil
  then show ?case by simp
next
  case (Cons word ws)
  obtain r st1 where g: "get_cache_info ops d (Some word) st = (r, st1)"
    by (cases "get_cache_info ops d (Some word) st")
  have i1: "I st1"
    using gi [OF Cons.prems, of "Some word"] g by simp
  show ?case
  proof (cases r)
    case (Inl e)
    with g i1 show ?thesis by simp
  next
    case (Inr info)
    show ?thesis
    proof (cases "info = []")
      case True
      with g Inr show ?thesis by (simp add: Cons.IH pr i1)
    next
      case False
      show ?thesis
      proof (cases "map_of info word")
        case None
        with g Inr False show ?thesis by (simp add: pr i1)
      next
        case (Some v)
        with g Inr False show ?thesis
          by (cases "json_dumps v") (simp_all add: Cons.IH pr i1)
      qed
    qed
  qed
qed

lemma show_cache_info_inv:
  assumes gi: "\<And>w st. I st \<Longrightarrow> I (snd (get_cache_info ops d w st))"
    and pr: "\<And>x st. I st \<Longrightarrow> I (print x st)"
    and lg: "\<And>m st. I st \<Longrightarrow> I (logging_error m st)"
    and i: "I st"
  shows "I (snd (show_cache_info ops d ws st))"
proof -
  have b: "I (snd (cache_info_body ops d ws st))"
  proof (cases "ws = []")
    case False
    then show ?thesis
      using cache_info_loop_inv [of I ops d st ws, OF gi pr i] by (simp add: cache_info_body_def)
  next
    case True
    obtain r st1 where g: "get_cache_info ops d None st = (r, st1)"
      by (cases "get_cache_info ops d None st")
    have i1: "I st1"
      using gi [OF i, of None] g by simp
    show ?thesis
    proof (cases r)
      case (Inl e)
      with True g i1 show ?thesis by (simp add: cache_info_body_def)
    next
      case (Inr info)
      with True g show ?thesis
        by (cases "json_dumps (JObj info)") (simp_all add: cache_info_body_def pr i1)
    qed
  qed
  obtain r st1 where c: "cache_info_body ops d ws st = (r, st1)"
    by (cases "cache_info_body ops d ws st")
  with b show ?thesis
    by (cases r) (simp_all add: show_cache_info_def lg)
qed

lemma clear_loop_inv:
  assumes cc: "\<And>w st. I st \<Longrightarrow> I (snd (downloader_clear_cache ops d w st))"
  shows "I st \<Longrightarrow> I (snd (clear_loop ops d ws st))"
proof (induction ws arbitrary: st)
  case Nil
  then show ?case by simp
next
  case (Cons word ws)
  obtain r st1 where g: "downloader_clear_cache ops d (Some word) st = (r, st1)"
    by (cases "downloader_clear_cache ops d (Some word) st")
  have i1: "I st1"
    using cc [OF Cons.prems, of "Some word"] g by simp
  from g i1 show ?case
    by (cases r) (simp_all add: Cons.IH)
qed

lemma clear_cache_inv:
  assumes cc: "\<And>w st. I st \<Longrightarrow> I (snd (downloader_clear_cache ops d w st))"
    and lg: "\<And>m st. I st \<Longrightarrow> I (logging_error m st)"
    and i: "I st"
  shows "I (snd (clear_cache ops d ws st))"
proof -
  let ?body = "if ws \<noteq> [] then clear_loop ops d ws st else downloader_clear_cache ops d None st"
  have b: "I (snd ?body)"
    using clear_loop_inv [of I ops d st ws, OF cc i] cc [OF i, of None] by simp
  obtain r st1 where c: "?body = (r, st1)"
    by (cases ?body)
  with b show ?thesis
    by (cases r) (simp_all add: clear_cache_def lg)
qed

lemma process_loop_inv:
  assumes dw: "\<And>word st. I st \<Longrightarrow> I (snd (download_word ops d accent word st))"
    and lg: "\<And>m st. I st \<Longrightarrow> I (logging_error m st)"
  shows "I st \<Longrightarrow> I (snd (process_loop ops d accent ws b st))"
proof (induction ws arbitrary: b st)
  case Nil
  then show ?case by simp
next
  case (Cons word ws)
  obtain r st1 where g: "download_word ops d accent word st = (r, st1)"
    by (cases "download_word ops d accent word st")
  have i1: "I st1"
    using dw [OF Cons.prems, of word] g by simp
  show ?case
  proof (cases "(word, r)" rule: failure_record.cases)
    case (1 word' paths)
    with g show ?thesis
      by (cases "paths = []") (simp_all add: Cons.IH lg i1)
  next
    case (2 word' m)
    with g show ?thesis by (simp add: Cons.IH lg i1)
  next
    case (3 word' m)
    with g show ?thesis by (simp add: Cons.IH lg i1)
  next
    case (4 word' m)
    with g show ?thesis by (simp add: Cons.IH lg i1)
  qed
qed

lemma process_words_inv:
  assumes ct: "\<And>st. I st \<Longrightarrow> I (snd (GooglePronunciationDownloader ops config st))"
    and dw: "\<And>word st. I st \<Longrightarrow> I (snd (download_word ops (Downloader config) accent word st))"
    and lg: "\<And>m st. I st \<Longrightarrow> I (logging_error m st)"
    and i: "I st"
  shows "I (snd (process_words ops ws config accent st))"
proof -
  obtain r st1 where g: "GooglePronunciationDownloader ops config st = (r, st1)"
    by (cases "GooglePronunciationDownloader ops config st")
  have i1: "I st1"
    using ct [OF i] g by simp
  show ?thesis
  proof (cases r)
    case (Inl e)
    with g i1 show ?thesis by (simp add: process_words_def)
  next
    case (Inr d)
    have d: "d = Downloader config"
      using constructor_Inr(1) [of ops config st d st1] g Inr by simp
    have "I (snd (process_loop ops d accent ws True st1))"
      using process_loop_inv [of I ops d accent st1 ws True] dw lg i1 d by simp
    with g Inr show ?thesis
      by (simp add: process_words_def case_prod_beta)
  qed
qed

lemma run_command_inv:
  assumes ct: "\<And>st. I st \<Longrightarrow> I (snd (GooglePronunciationDownloader ops config st))"
    and dw: "\<And>a word st. args_command args = Some ''download'' \<Longrightarrow> args_accent args = Some a
               \<Longrightarrow> I st \<Longrightarrow> I (snd (download_word ops (Downloader config) a word st))"
    and gi: "\<And>w st. I st \<Longrightarrow> I (snd (get_cache_info ops d w st))"
    and cc: "\<And>w st. I st \<Longrightarrow> I (snd (downloader_clear_cache ops d w st))"
    and pr: "\<And>x st. I st \<Longrightarrow> I (print x st)"
    and lg: "\<And>m st. I st \<Longrightarrow> I (logging_error m st)"
    and i: "I st"
  shows "I (snd (run_command ops args config d st))"
proof -
  consider (download) "args_command args = Some ''download''"
    | (info) "args_command args \<noteq> Some ''download''" "args_command args = Some ''cache-info''"
    | (clear) "args_command args \<noteq> Some ''download''" "args_command args \<noteq> Some ''cache-info''"
        "args_command args = Some ''clear-cache''"
    | (none) "args_command args \<noteq> Some ''download''" "args_command args \<noteq> Some ''cache-info''"
        "args_command args \<noteq> Some ''clear-cache''"
    by blast
  then show ?thesis
  proof cases
    case download
    show ?thesis
    proof (cases "args_words args")
      case None
      with download i show ?thesis by (simp add: run_command_def)
    next
      case ws: (Some ws)
      show ?thesis
      proof (cases "args_accent args")
        case None
        with download ws i show ?thesis by (simp add: run_command_def)
      next
        case (Some a)
        have "I (snd (process_words ops ws config a st))"
          by (rule process_words_inv [of I ops config a, OF ct dw [OF download Some] lg i])
        with download ws Some show ?thesis by (simp add: run_command_def)
      qed
    qed
  next
    case info
    show ?thesis
    proof (cases "args_words args")
      case None
      with info i show ?thesis by (simp add: run_command_def)
    next
      case (Some ws)
      have "I (snd (show_cache_info ops d ws st))"
        by (rule show_cache_info_inv [of I ops d, OF gi pr lg i])
      with info Some show ?thesis by (simp add: run_command_def case_prod_beta)
    qed
  next
    case clear
    show ?thesis
    proof (cases "args_words args")
      case None
      with clear i show ?thesis by (simp add: run_command_def)
    next
      case (Some ws)
      have "I (snd (clear_cache ops d ws st))"
        by (rule clear_cache_inv [of I ops d, OF cc lg i])
      with clear Some show ?thesis by (simp add: run_command_def case_prod_beta)
    qed
  next
    case none
    with i show ?thesis by (simp add: run_command_def lg)
  qed
qed

lemma main_inv:
  assumes p: "parse_args raw = Inr args"
    and i1: "I (snd (GooglePronunciationDownloader ops (main_config args)
                      (setup_logging (args_verbose args) (start w))))"
    and ct: "\<And>st. I st \<Longrightarrow> I (snd (GooglePronunciationDownloader ops (main_config args) st))"
    and dw: "\<And>a word st. args_command args = Some ''download'' \<Longrightarrow> args_accent args = Some a
               \<Longrightarrow> I st
               \<Longrightarrow> I (snd (download_word ops (Downloader (main_config args)) a word st))"
    and gi: "\<And>x st. I st \<Longrightarrow> I (snd (get_cache_info ops (Downloader (main_config args)) x st))"
    and cc: "\<And>x st. I st
               \<Longrightarrow> I (snd (downloader_clear_cache ops (Downloader (main_config args)) x st))"
    and pr: "\<And>x st. I st \<Longrightarrow> I (print x st)"
    and lg: "\<And>m st. I st \<Longrightarrow> I (logging_error m st)"
  shows "I (snd (main ops raw w))"
proof -
  let ?cfg = "main_config args"
  let ?st0 = "setup_logging (args_verbose args) (start w)"
  obtain r st1 where g: "GooglePronunciationDownloader ops ?cfg ?st0 = (r, st1)"
    by (cases "GooglePronunciationDownloader ops ?cfg ?st0")
  have s1: "I st1"
    using i1 g by simp
  show ?thesis
  proof (cases r)
    case (Inl e)
    with g s1 show ?thesis by (simp add: main_parsed [OF p])
  next
    case (Inr d)
    have d: "d = Downloader ?cfg"
      using constructor_Inr(1) [of ops ?cfg ?st0 d st1] g Inr by simp
    have c: "I (snd (run_command ops args ?cfg d st1))"
      unfolding d
      by (rule run_command_inv [of I ops ?cfg args "Downloader ?cfg", OF ct dw gi cc pr lg s1])
    obtain r2 st2 where q: "run_command ops args ?cfg d st1 = (r2, st2)"
      by (cases "run_command ops args ?cfg d st1")
    with c g Inr show ?thesis
      by (cases r2) (simp_all add: main_parsed [OF p] lg)
  qed
qed

subsection \<open>The calls a run makes\<close>

lemma list_all_concat_map:
  assumes "\<And>x. list_all P (f x)"
  shows "list_all P (concat (map f xs))"
  by (induction xs) (simp_all add: assms)

text \<open>
  A run of \<^verbatim>\<open>main\<close> begins by constructing the downloader; every call after that is a
  call on the downloader with the same configuration, or a conversion of the accent.
\<close>

lemma main_calls:
  fixes ops :: "'w downloader_ops"
  assumes "parse_args raw = Inr args"
    and "P (Call_init (main_config args))"
    and "\<And>w. P (Call_get_cache_info (main_config args) w)"
    and "\<And>w. P (Call_clear_cache (main_config args) w)"
    and "\<And>a w. args_command args = Some ''download'' \<Longrightarrow> args_accent args = Some a
           \<Longrightarrow> list_all P (word_calls (main_config args) a w)"
  shows "\<exists>cs. calls (snd (main ops raw w)) = Call_init (main_config args) # cs \<and> list_all P cs"
proof -
  let ?cfg = "main_config args"
  let ?I = "\<lambda>st. \<exists>cs. calls st = Call_init ?cfg # cs \<and> list_all P cs"
  show ?thesis
  proof (rule main_inv [of raw args ?I ops w, OF assms(1)])
    show "?I (snd (GooglePronunciationDownloader ops ?cfg
                    (setup_logging (args_verbose args) (start w))))"
      by (simp add: constructor_eq setup_logging_def start_def)
  next
    fix st :: "'w cli_state" assume "?I st"
    then show "?I (snd (GooglePronunciationDownloader ops ?cfg st))"
      using assms(2) by (auto simp: constructor_eq)
  next
    fix a word and st :: "'w cli_state"
    assume "args_command args = Some ''download''" and "args_accent args = Some a" and "?I st"
    then show "?I (snd (download_word ops (Downloader ?cfg) a word st))"
      using assms(5) [of a word] by (auto simp: download_word_eq)
  next
    fix x and st :: "'w cli_state" assume "?I st"
    then show "?I (snd (get_cache_info ops (Downloader ?cfg) x st))"
      using assms(3) by (auto simp: get_cache_info_eq)
  next
    fix x and st :: "'w cli_state" assume "?I st"
    then show "?I (snd (downloader_clear_cache ops (Downloader ?cfg) x st))"
      using assms(4) by (auto simp: downloader_clear_cache_eq)
  next
    fix x and st :: "'w cli_state" assume "?I st"
    then show "?I (print x st)"
      by (simp add: print_fields)
  next
    fix m and st :: "'w cli_state" assume "?I st"
    then show "?I (logging_error m st)"
      by (simp add: logging_error_fields)
  qed
qed

text \<open>With a recording downloader, the notes are the configurations of the calls.\<close>

lemma map_filter_append:
  "List.map_filter f (xs @ ys) = List.map_filter f xs @ List.map_filter f ys"
  by (simp add: List.map_filter_def)

lemma asked_recording:
  "snd (snd (asked (recording ops) config accent word w))
     = snd w @ List.map_filter call_config (word_calls config accent word)"
proof (cases "accent = ''all''")
  case True
  then show ?thesis
    by (simp add: asked_def recording_def word_calls_def)
next
  case False
  show ?thesis
  proof (cases "AccentType_of accent")
    case (Inl e)
    with False show ?thesis
      by (simp add: asked_def word_calls_def)
  next
    case (Inr a)
    with False show ?thesis
      by (simp add: asked_def recording_def word_calls_def split: sum.splits option.splits)
  qed
qed

lemma main_notes:
  fixes ops :: "'w downloader_ops"
  assumes "parse_args raw = Inr args"
  shows "notes_match (snd (main (recording ops) raw (w, [])))"
proof (rule main_inv [of raw args notes_match "recording ops" "(w, [])", OF assms])
  show "notes_match (snd (GooglePronunciationDownloader (recording ops) (main_config args)
                            (setup_logging (args_verbose args) (start (w, [])))))"
    by (simp add: notes_match_def constructor_eq setup_logging_def start_def recording_def)
next
  fix st :: "('w \<times> DownloadConfig list) cli_state"
  assume "notes_match st"
  then show "notes_match (snd (GooglePronunciationDownloader (recording ops) (main_config args) st))"
    by (simp add: notes_match_def constructor_eq recording_def map_filter_append)
next
  fix a word and st :: "('w \<times> DownloadConfig list) cli_state"
  assume "notes_match st"
  then show "notes_match (snd (download_word (recording ops) (Downloader (main_config args))
                                 a word st))"
    by (simp add: notes_match_def download_word_eq asked_recording map_filter_append)
next
  fix x and st :: "('w \<times> DownloadConfig list) cli_state"
  assume "notes_match st"
  then show "notes_match (snd (get_cache_info (recording ops) (Downloader (main_config args)) x st))"
    by (simp add: notes_match_def get_cache_info_eq recording_def map_filter_append)
next
  fix x and st :: "('w \<times> DownloadConfig list) cli_state"
  assume "notes_match st"
  then show "notes_match (snd (downloader_clear_cache (recording ops)
                                 (Downloader (main_config args)) x st))"
    by (simp add: notes_match_def downloader_clear_cache_eq recording_def map_filter_append)
next
  fix x and st :: "('w \<times> DownloadConfig list) cli_state"
  assume "notes_match st"
  then show "notes_match (print x st)"
    by (simp add: notes_match_def print_fields)
next
  fix m and st :: "('w \<times> DownloadConfig list) cli_state"
  assume "notes_match st"
  then show "notes_match (logging_error m st)"
    by (simp add: notes_match_def logging_error_fields)
qed

lemma configs_of_calls:
  assumes "list_all (hands_over config) cs"
  shows "List.map_filter call_config cs
           = replicate (length (List.map_filter call_config cs)) config"
  using assms
  by (induction cs) (auto simp: hands_over_def)

subsection \<open>\<^verbatim>\<open>main\<close>\<close>

text \<open>
  Claim C5: the \<^verbatim>\<open>DownloadConfig\<close> handed to the downloader has \<^verbatim>\<open>use_cache\<close> true
  exactly when \<^verbatim>\<open>--no-cache\<close> is absent and \<^verbatim>\<open>force_download\<close> true exactly when
  \<^verbatim>\<open>--force-download\<close> is given. It is constructed once from the parsed arguments and
  stays as it is: whatever the downloader, when each of its operations notes the
  configuration it receives, the notes of a run are this one configuration, once for the
  construction at the start and once more for every later operation.
\<close>

theorem config_received:
  assumes "parse_args raw = Inr args"
  shows "use_cache (main_config args) = (\<not> raw_no_cache raw)
       \<and> force_download (main_config args) = raw_force_download raw
       \<and> (\<exists>n. snd (world (snd (main (recording ops) raw (w, []))))
                 = replicate (Suc n) (main_config args))"
proof -
  let ?cfg = "main_config args"
  let ?st = "snd (main (recording ops) raw (w, []))"
  have f: "use_cache ?cfg = (\<not> raw_no_cache raw)" "force_download ?cfg = raw_force_download raw"
    using parse_args_globals(3,4) [OF assms] by (simp_all add: main_config_def)
  have wc: "\<And>a x. list_all (hands_over ?cfg) (word_calls ?cfg a x)"
    by (simp add: word_calls_def hands_over_def split: sum.splits)
  have "\<exists>cs. calls ?st = Call_init ?cfg # cs \<and> list_all (hands_over ?cfg) cs"
    by (rule main_calls [OF assms]) (simp_all add: hands_over_def wc)
  then obtain cs where c: "calls ?st = Call_init ?cfg # cs" and h: "list_all (hands_over ?cfg) cs"
    by blast
  have "snd (world ?st) = List.map_filter call_config (calls ?st)"
    using main_notes [OF assms, of ops w] by (simp add: notes_match_def)
  also have "\<dots> = ?cfg # List.map_filter call_config cs"
    by (simp add: c)
  also have "\<dots> = replicate (Suc (length (List.map_filter call_config cs))) ?cfg"
    using configs_of_calls [OF h] by simp
  finally have "\<exists>n. snd (world ?st) = replicate (Suc n) ?cfg"
    by blast
  with f show ?thesis by simp
qed

theorem config_received_witness:
  "main_config \<lparr>args_command = Some ''download'', args_words = Some [''hello''],
            args_accent = Some ''us'', args_output_dir = Path ''pronunciations'',
            args_timeout = 10, args_verbose = False, args_no_cache = True,
            args_force_download = True\<rparr>
     = \<lparr>output_dir = Path ''pronunciations'', timeout = 10, use_cache = False,
        force_download = True\<rparr>
   \<and> (\<exists>n. snd (world (snd (main (recording demo_ops) \<lparr>raw_output_dir = None,
          raw_timeout = None, raw_verbose = False, raw_no_cache = True,
          raw_force_download = True, raw_command = Some ''download'', raw_words = [''hello''],
          raw_accent = Some ''us''\<rparr> ([], []))))
        = replicate (Suc n) \<lparr>output_dir = Path ''pronunciations'', timeout = 10,
            use_cache = False, force_download = True\<rparr>)
   \<and> snd (world (snd (main (recording demo_ops) \<lparr>raw_output_dir = None,
          raw_timeout = None, raw_verbose = False, raw_no_cache = True,
          raw_force_download = True, raw_command = Some ''download'', raw_words = [''hello''],
          raw_accent = Some ''us''\<rparr> ([], []))))
     = [\<lparr>output_dir = Path ''pronunciations'', timeout = 10, use_cache = False,
         force_download = True\<rparr>,
        \<lparr>output_dir = Path ''pronunciations'', timeout = 10, use_cache = False,
         force_download = True\<rparr>,
        \<lparr>output_dir = Path ''pronunciations'', timeout = 10, use_cache = False,
         force_download = True\<rparr>]"
proof -
  let ?raw = "\<lparr>raw_output_dir = None, raw_timeout = None, raw_verbose = False,
       raw_no_cache = True, raw_force_download = True, raw_command = Some ''download'',
       raw_words = [''hello''], raw_accent = Some ''us''\<rparr>"
  let ?args = "\<lparr>args_command = Some ''download'', args_words = Some [''hello''],
            args_accent = Some ''us'', args_output_dir = Path ''pronunciations'',
            args_timeout = 10, args_verbose = False, args_no_cache = True,
            args_force_download = True\<rparr>"
  have p: "parse_args ?raw = Inr ?args"
    by (simp add: parse_args_def global_options_def)
  have m: "main_config ?args = \<lparr>output_dir = Path ''pronunciations'', timeout = 10,
      use_cache = False, force_download = True\<rparr>"
    by (simp add: main_config_def)
  have e: "snd (world (snd (main (recording demo_ops) ?raw ([], []))))
      = [main_config ?args, main_config ?args, main_config ?args]"
    by (subst main_parsed [OF p])
       (simp add: constructor_eq run_command_def process_words_eq asked_def AccentType_of_def
        recording_def demo_ops_def setup_logging_def start_def)
  show ?thesis
    using m e config_received [OF p, of demo_ops "[]"] by simp
qed

text \<open>
  Claim C10: in the download command the conversion \<^verbatim>\<open>AccentType(accent)\<close> is only ever
  applied to \<^verbatim>\<open>gb\<close> or \<^verbatim>\<open>us\<close>. The parser admits \<^verbatim>\<open>gb\<close>, \<^verbatim>\<open>us\<close> and \<^verbatim>\<open>all\<close>
  only, and \<^verbatim>\<open>all\<close> takes the branch of \<^verbatim>\<open>download_all_accents\<close>; so in a run of
  \<^verbatim>\<open>main\<close> on a command line the parser accepts, every conversion made succeeds.
\<close>

theorem accent_conversion_total:
  assumes "parse_args raw = Inr args"
  shows "list_all converts_accent (calls (snd (main ops raw w)))
       \<and> (\<forall>s. Call_AccentType s \<in> set (calls (snd (main ops raw w)))
              \<longrightarrow> (\<exists>a. AccentType_of s = Inr a))"
proof -
  have w: "list_all converts_accent (word_calls (main_config args) a x)"
    if c: "args_command args = Some ''download''" and a: "args_accent args = Some a" for a x
  proof -
    have r: "raw_command raw = Some ''download''"
      using parse_args_globals(5) [OF assms] c by simp
    have "a \<in> set [''gb'', ''us'', ''all'']"
      using parse_args_download(2,4) [OF assms r] a by simp
    then consider "a = ''all''" | "a = ''gb''" | "a = ''us''"
      by auto
    then show ?thesis
      by cases (simp_all add: word_calls_def AccentType_of_def)
  qed
  have "\<exists>cs. calls (snd (main ops raw w)) = Call_init (main_config args) # cs
            \<and> list_all converts_accent cs"
    by (rule main_calls [OF assms]) (simp_all add: w)
  then have l: "list_all converts_accent (calls (snd (main ops raw w)))"
    by auto
  have "\<exists>a. AccentType_of s = Inr a"
    if "Call_AccentType s \<in> set (calls (snd (main ops raw w)))" for s
  proof -
    have "\<forall>c \<in> set (calls (snd (main ops raw w))). converts_accent c"
      using l by (simp add: list_all_iff)
    then have "converts_accent (Call_AccentType s)"
      using that by blast
    then show ?thesis
      by (auto simp: AccentType_of_def)
  qed
  with l show ?thesis by blast
qed

theorem accent_conversion_total_witness:
  "parse_args (command_line ''download'' [''hello''] (Some ''gb''))
     = Inr (global_options (command_line ''download'' [''hello''] (Some ''gb''))
              (Some ''download'') (Some [''hello'']) (Some ''gb'') 10)
   \<and> Call_AccentType ''gb''
       \<in> set (calls (snd (main demo_ops (command_line ''download'' [''hello''] (Some ''gb'')) [])))
   \<and> list_all converts_accent
       (calls (snd (main demo_ops (command_line ''download'' [''hello''] (Some ''gb'')) [])))
   \<and> (\<exists>a. AccentType_of ''gb'' = Inr a)"
proof -
  let ?raw = "command_line ''download'' [''hello''] (Some ''gb'')"
  have p: "parse_args ?raw = Inr (global_options ?raw (Some ''download'') (Some [''hello''])
      (Some ''gb'') 10)"
    by (simp add: parse_args_def command_line_def)
  have c: "Call_AccentType ''gb'' \<in> set (calls (snd (main demo_ops ?raw [])))"
    by (subst main_parsed [OF p])
       (simp add: constructor_eq run_command_def global_options_def
        process_words_def download_word_def AccentType_call_def AccentType_of_def
        download_pronunciation_def invoke_eq demo_ops_def setup_logging_def start_def
        main_config_def command_line_def)
  show ?thesis
    using p c accent_conversion_total [OF p, of demo_ops "[]"] by blast
qed

text \<open>
  Claim C7: an unexpected exception that escapes a command handler is caught at the top
  level of \<^verbatim>\<open>main\<close>, logged, and gives exit code 1 instead of a crash. Once
  \<^verbatim>\<open>main\<close> has its downloader, the run ends with a returned code whatever the handler
  does; and when the handler raises, the code is 1 and the last record logged is the
  fatal error.
\<close>

theorem main_catches:
  assumes "parse_args raw = Inr args"
    and "GooglePronunciationDownloader ops (main_config args)
           (setup_logging (args_verbose args) (start w)) = (Inr d, st1)"
  shows "(\<exists>code. fst (main ops raw w) = Returned code)
       \<and> (\<forall>e st2. run_command ops args (main_config args) d st1 = (Inl e, st2) \<longrightarrow>
              fst (main ops raw w) = Returned 1
            \<and> exit_status (fst (main ops raw w)) = 1
            \<and> logged (snd (main ops raw w)) = logged st2 @ [''Fatal error: '' @ exn_str e])"
proof -
  obtain r st2 where c: "run_command ops args (main_config args) d st1 = (r, st2)"
    by (cases "run_command ops args (main_config args) d st1")
  show ?thesis
  proof (cases r)
    case (Inl e)
    with c show ?thesis
      by (simp add: main_parsed [OF assms(1)] assms(2) logging_error_fields)
  next
    case (Inr code)
    with c show ?thesis
      by (simp add: main_parsed [OF assms(1)] assms(2))
  qed
qed

theorem main_catches_witness:
  "parse_args (command_line ''download'' [''hello''] None)
     = Inr (global_options (command_line ''download'' [''hello''] None)
              (Some ''download'') (Some [''hello'']) (Some ''all'') 10)
   \<and> fst (main broken_ops (command_line ''download'' [''hello''] None) 0) = Returned 1
   \<and> logged (snd (main broken_ops (command_line ''download'' [''hello''] None) 0))
       = [''Fatal error: cannot create directory'']"
proof -
  let ?raw = "command_line ''download'' [''hello''] None"
  let ?args = "global_options ?raw (Some ''download'') (Some [''hello'']) (Some ''all'') 10"
  let ?st1 = "\<lparr>world = Suc 0, log_level = INFO, logged = [], printed = [],
                calls = [Call_init (main_config ?args)]\<rparr> :: nat cli_state"
  let ?st2 = "\<lparr>world = Suc (Suc 0), log_level = INFO, logged = [], printed = [],
                calls = [Call_init (main_config ?args), Call_init (main_config ?args)]\<rparr>
              :: nat cli_state"
  have p: "parse_args ?raw = Inr ?args"
    by (simp add: parse_args_def command_line_def)
  have g: "GooglePronunciationDownloader broken_ops (main_config ?args)
      (setup_logging (args_verbose ?args) (start 0)) = (Inr (Downloader (main_config ?args)), ?st1)"
    by (simp add: constructor_eq broken_ops_def setup_logging_def start_def global_options_def
        command_line_def)
  have r: "run_command broken_ops ?args (main_config ?args) (Downloader (main_config ?args)) ?st1
      = (Inl (OtherException ''cannot create directory''), ?st2)"
    by (simp add: run_command_def global_options_def process_words_def constructor_eq
        broken_ops_def)
  have "fst (main broken_ops ?raw 0) = Returned 1
      \<and> exit_status (fst (main broken_ops ?raw 0)) = 1
      \<and> logged (snd (main broken_ops ?raw 0))
          = logged ?st2 @ [''Fatal error: '' @ exn_str (OtherException ''cannot create directory'')]"
    using main_catches [OF p g] r by blast
  with p show ?thesis by simp
qed

subsection \<open>\<^verbatim>\<open>show_cache_info\<close>\<close>



lemma show_cache_info_eq:
  "show_cache_info ops d ws st =
     (if isl (fst (cache_info_body ops d ws st)) then 1 else 0,
      case fst (cache_info_body ops d ws st) of
        Inr u \<Rightarrow> snd (cache_info_body ops d ws st)
      | Inl e \<Rightarrow> logging_error (''Error getting cache info: '' @ exn_str e)
                  (snd (cache_info_body ops d ws st)))"
  by (simp add: show_cache_info_def split: prod.splits sum.splits)



text \<open>
  Claim C6, as stated: for every invocation of the cache-info command with no words, the
  CLI asks for the cache information of all entries, prints the whole mapping as JSON (the
  line \<^verbatim>\<open>No cached files found\<close> when it is empty) and returns exit code 0. The
  \<^verbatim>\<open>try\<close> of \<^verbatim>\<open>show_cache_info\<close> decides otherwise when the request raises: on a
  downloader whose \<^verbatim>\<open>get_cache_info\<close> raises \<^verbatim>\<open>CacheError\<close>, the command line
  \<^verbatim>\<open>cache-info\<close> prints nothing and ends with status 1.
\<close>

theorem cache_info_exit_counterexample:
  "parse_args (command_line ''cache-info'' [] None)
     = Inr (global_options (command_line ''cache-info'' [] None)
              (Some ''cache-info'') (Some []) None 10)
   \<and> exit_status (fst (main broken_ops (command_line ''cache-info'' [] None) 0)) = 1
   \<and> printed (snd (main broken_ops (command_line ''cache-info'' [] None) 0)) = []
   \<and> logged (snd (main broken_ops (command_line ''cache-info'' [] None) 0))
       = [''Error getting cache info: corrupt metadata'']"
proof -
  let ?raw = "command_line ''cache-info'' [] None"
  have p: "parse_args ?raw = Inr (global_options ?raw (Some ''cache-info'') (Some []) None 10)"
    by (simp add: parse_args_def command_line_def)
  have m: "main broken_ops ?raw 0 =
      (Returned 1,
       \<lparr>world = Suc 0, log_level = INFO,
        logged = [''Error getting cache info: corrupt metadata''], printed = [],
        calls = [Call_init (main_config (global_options ?raw (Some ''cache-info'') (Some []) None 10)),
                 Call_get_cache_info
                   (main_config (global_options ?raw (Some ''cache-info'') (Some []) None 10))
                   None]\<rparr>)"
    by (subst main_parsed [OF p])
       (simp add: constructor_eq run_command_def global_options_def show_cache_info_def
        cache_info_body_def get_cache_info_eq broken_ops_def setup_logging_def start_def
        logging_error_def command_line_def)
  show ?thesis
    using p by (simp add: m)
qed

text \<open>
  Claim C6, amended: for every invocation of the cache-info command with no words in
  which the downloader is constructed, the CLI asks for the cache information of all
  entries, once. When the request returns an empty mapping, the line
  \<^verbatim>\<open>No cached files found\<close> is printed and the exit code is 0. When it returns a
  mapping that \<^verbatim>\<open>json.dumps\<close> accepts, the heading and the whole mapping as JSON are
  printed and the exit code is 0. When the request raises, nothing is printed, the error
  is logged and the exit code is 1; when \<^verbatim>\<open>json.dumps\<close> raises on the mapping, the
  heading alone is printed, the error is logged and the exit code is 1.
\<close>

theorem cache_info_all_entries:
  assumes "parse_args raw = Inr args"
    and "raw_command raw = Some ''cache-info''"
    and "raw_words raw = []"
    and "dl_init ops (main_config args) w = (Inr (), w1)"
  shows "calls (snd (main ops raw w))
           = [Call_init (main_config args), Call_get_cache_info (main_config args) None]
       \<and> world (snd (main ops raw w)) = snd (dl_get_cache_info ops (main_config args) None w1)
       \<and> (case fst (dl_get_cache_info ops (main_config args) None w1) of
            Inl e \<Rightarrow>
              fst (main ops raw w) = Returned 1
            \<and> printed (snd (main ops raw w)) = []
            \<and> logged (snd (main ops raw w)) = [''Error getting cache info: '' @ exn_str e]
          | Inr info \<Rightarrow>
              (if info = [] then
                 fst (main ops raw w) = Returned 0
               \<and> printed (snd (main ops raw w)) = [Text ''No cached files found'']
               \<and> logged (snd (main ops raw w)) = []
               else
                 (case rejected (JObj info) of
                    None \<Rightarrow>
                      fst (main ops raw w) = Returned 0
                    \<and> printed (snd (main ops raw w))
                        = [Text (CHR 0x0A # ''Cache information:''), Json_dumps (JObj info)]
                    \<and> logged (snd (main ops raw w)) = []
                  | Some m \<Rightarrow>
                      fst (main ops raw w) = Returned 1
                    \<and> printed (snd (main ops raw w)) = [Text (CHR 0x0A # ''Cache information:'')]
                    \<and> logged (snd (main ops raw w)) = [''Error getting cache info: '' @ m])))"
proof -
  let ?cfg = "main_config args"
  have c: "args_command args = Some ''cache-info''"
    using parse_args_globals(5) [OF assms(1)] assms(2) by simp
  have ws: "args_words args = Some []"
    using parse_args_words [OF assms(1,2)] assms(3) by simp
  have m: "main ops raw w =
      (case show_cache_info ops (Downloader ?cfg) []
              \<lparr>world = w1, log_level = (if args_verbose args then DEBUG else INFO),
               logged = [], printed = [], calls = [Call_init ?cfg]\<rparr> of
         (code, st2) \<Rightarrow> (Returned code, st2))"
    by (simp add: main_parsed [OF assms(1)] constructor_eq setup_logging_def start_def assms(4)
        run_command_def c ws case_prod_beta)
  obtain r w2 where q: "dl_get_cache_info ops ?cfg None w1 = (r, w2)"
    by (cases "dl_get_cache_info ops ?cfg None w1")
  show ?thesis
  proof (cases r)
    case (Inl e)
    show ?thesis
      by (simp add: m q Inl show_cache_info_eq cache_info_body_def get_cache_info_eq
          logging_error_def)
  next
    case (Inr info)
    show ?thesis
    proof (cases "info = []")
      case True
      show ?thesis
        by (simp add: m q Inr True show_cache_info_eq cache_info_body_def get_cache_info_eq
            print_def)
    next
      case False
      show ?thesis
        by (cases "rejected (JObj info)")
           (simp_all add: m q Inr False show_cache_info_eq cache_info_body_def get_cache_info_eq
            json_dumps_def print_def logging_error_def del: rejected.simps)
    qed
  qed
qed

theorem cache_info_all_entries_witness:
  "fst (main demo_ops (command_line ''cache-info'' [] None) [''hello'']) = Returned 0
   \<and> printed (snd (main demo_ops (command_line ''cache-info'' [] None) [''hello'']))
       = [Text (CHR 0x0A # ''Cache information:''),
          Json_dumps (JObj [(''hello'', JObj [(''cached'', JBool True)])])]
   \<and> fst (main demo_ops (command_line ''cache-info'' [] None) []) = Returned 0
   \<and> printed (snd (main demo_ops (command_line ''cache-info'' [] None) []))
       = [Text ''No cached files found'']
   \<and> fst (main path_ops (command_line ''cache-info'' [] None) ()) = Returned 1
   \<and> printed (snd (main path_ops (command_line ''cache-info'' [] None) ()))
       = [Text (CHR 0x0A # ''Cache information:'')]
   \<and> logged (snd (main path_ops (command_line ''cache-info'' [] None) ()))
       = [''Error getting cache info: Object of type PosixPath is not JSON serializable'']"
proof -
  let ?raw = "command_line ''cache-info'' [] None"
  let ?args = "global_options ?raw (Some ''cache-info'') (Some []) None 10"
  have p: "parse_args ?raw = Inr ?args"
    by (simp add: parse_args_def command_line_def)
  have c: "raw_command ?raw = Some ''cache-info''" and e: "raw_words ?raw = []"
    by (simp_all add: command_line_def)
  have i: "dl_init demo_ops (main_config ?args) x = (Inr (), x)" for x
    by (simp add: demo_ops_def)
  have i': "dl_init path_ops (main_config ?args) () = (Inr (), ())"
    by (simp add: path_ops_def)
  have q1: "dl_get_cache_info demo_ops (main_config ?args) None [''hello'']
      = (Inr [(''hello'', JObj [(''cached'', JBool True)])], [''hello''])"
    and q2: "dl_get_cache_info demo_ops (main_config ?args) None [] = (Inr [], [])"
    by (simp_all add: demo_ops_def)
  have q3: "dl_get_cache_info path_ops (main_config ?args) None ()
      = (Inr [(''hello'', JObj [(''path'',
                 JRejected ''Object of type PosixPath is not JSON serializable'')])], ())"
    by (simp add: path_ops_def)
  show ?thesis
    using cache_info_all_entries [OF p c e i [of "[''hello'']"]]
      cache_info_all_entries [OF p c e i [of "[]"]]
      cache_info_all_entries [OF p c e i']
    by (simp add: q1 q2 q3)
qed

subsection \<open>Further properties of \<^verbatim>\<open>main\<close> and \<^verbatim>\<open>show_cache_info\<close>\<close>

text \<open>
  The constructor call of \<^verbatim>\<open>main\<close> stands before the \<^verbatim>\<open>try\<close>: when it raises,
  nothing catches the exception, nothing is logged, and the run ends with the exception.
\<close>

theorem constructor_failure_uncaught:
  assumes "parse_args raw = Inr args"
    and "GooglePronunciationDownloader ops (main_config args)
           (setup_logging (args_verbose args) (start w)) = (Inl e, st1)"
  shows "fst (main ops raw w) = Uncaught e
       \<and> logged (snd (main ops raw w)) = []
       \<and> calls (snd (main ops raw w)) = [Call_init (main_config args)]"
proof -
  have "calls st1 = [Call_init (main_config args)]" and "logged st1 = []"
    using assms(2) by (auto simp: constructor_eq setup_logging_def start_def)
  then show ?thesis
    by (simp add: main_parsed [OF assms(1)] assms(2))
qed

theorem constructor_failure_uncaught_witness:
  "parse_args (command_line ''cache-info'' [] None)
     = Inr (global_options (command_line ''cache-info'' [] None)
              (Some ''cache-info'') (Some []) None 10)
   \<and> fst (main broken_ops (command_line ''cache-info'' [] None) (Suc 0))
       = Uncaught (OtherException ''cannot create directory'')
   \<and> logged (snd (main broken_ops (command_line ''cache-info'' [] None) (Suc 0))) = []"
proof -
  let ?raw = "command_line ''cache-info'' [] None"
  let ?args = "global_options ?raw (Some ''cache-info'') (Some []) None 10"
  have p: "parse_args ?raw = Inr ?args"
    by (simp add: parse_args_def command_line_def)
  have g: "GooglePronunciationDownloader broken_ops (main_config ?args)
      (setup_logging (args_verbose ?args) (start (Suc 0)))
      = (Inl (OtherException ''cannot create directory''),
         \<lparr>world = Suc (Suc 0), log_level = INFO, logged = [], printed = [],
          calls = [Call_init (main_config ?args)]\<rparr>)"
    by (simp add: constructor_eq broken_ops_def setup_logging_def start_def global_options_def
        command_line_def)
  show ?thesis
    using p constructor_failure_uncaught [OF p g] by simp
qed

text \<open>
  Without a subcommand \<^verbatim>\<open>main\<close> still constructs the downloader, then logs that no
  command was specified and returns 1.
\<close>

theorem no_command_exit:
  assumes "parse_args raw = Inr args"
    and "raw_command raw = None"
    and "GooglePronunciationDownloader ops (main_config args)
           (setup_logging (args_verbose args) (start w)) = (Inr d, st1)"
  shows "fst (main ops raw w) = Returned 1
       \<and> logged (snd (main ops raw w))
           = [''No command specified. Use --help for usage information.'']
       \<and> calls (snd (main ops raw w)) = [Call_init (main_config args)]"
proof -
  have c: "args_command args = None"
    using parse_args_globals(5) [OF assms(1)] assms(2) by simp
  have s: "calls st1 = [Call_init (main_config args)]" "logged st1 = []"
    using constructor_Inr(2,3) [OF assms(3)] by (simp_all add: setup_logging_def start_def)
  show ?thesis
    by (simp add: main_parsed [OF assms(1)] assms(3) run_command_def c s logging_error_fields)
qed

theorem no_command_exit_witness:
  "parse_args \<lparr>raw_output_dir = None, raw_timeout = None, raw_verbose = True,
       raw_no_cache = False, raw_force_download = False, raw_command = None,
       raw_words = [], raw_accent = None\<rparr>
     = Inr \<lparr>args_command = None, args_words = None, args_accent = None,
            args_output_dir = Path ''pronunciations'', args_timeout = 10,
            args_verbose = True, args_no_cache = False, args_force_download = False\<rparr>
   \<and> fst (main demo_ops \<lparr>raw_output_dir = None, raw_timeout = None, raw_verbose = True,
       raw_no_cache = False, raw_force_download = False, raw_command = None,
       raw_words = [], raw_accent = None\<rparr> []) = Returned 1
   \<and> logged (snd (main demo_ops \<lparr>raw_output_dir = None, raw_timeout = None,
       raw_verbose = True, raw_no_cache = False, raw_force_download = False,
       raw_command = None, raw_words = [], raw_accent = None\<rparr> []))
       = [''No command specified. Use --help for usage information.'']"
proof -
  let ?raw = "\<lparr>raw_output_dir = None, raw_timeout = None, raw_verbose = True,
       raw_no_cache = False, raw_force_download = False, raw_command = None,
       raw_words = [], raw_accent = None\<rparr>"
  let ?args = "\<lparr>args_command = None, args_words = None, args_accent = None,
            args_output_dir = Path ''pronunciations'', args_timeout = 10,
            args_verbose = True, args_no_cache = False, args_force_download = False\<rparr>"
  have p: "parse_args ?raw = Inr ?args"
    by (simp add: parse_args_def global_options_def)
  have c: "raw_command ?raw = None"
    by simp
  have g: "GooglePronunciationDownloader demo_ops (main_config ?args)
      (setup_logging (args_verbose ?args) (start []))
      = (Inr (Downloader (main_config ?args)),
         \<lparr>world = [], log_level = DEBUG, logged = [], printed = [],
          calls = [Call_init (main_config ?args)]\<rparr>)"
    by (simp add: constructor_eq demo_ops_def setup_logging_def start_def)
  show ?thesis
    using p no_command_exit [OF p c g] by simp
qed

text \<open>
  \<^verbatim>\<open>show_cache_info\<close> reads \<^verbatim>\<open>info[word]\<close>: it relies on the mapping that
  \<^verbatim>\<open>get_cache_info(word)\<close> returns having the word itself as a key. On a mapping that
  is not empty and has no such key, the heading is printed, the subscription raises
  \<^verbatim>\<open>KeyError\<close>, the words after it are not looked up, and the exit code is 1.
\<close>

theorem missing_key_fails:
  assumes "dl_get_cache_info ops (config_of d) (Some word) (world st) = (Inr info, w')"
    and "info \<noteq> []"
    and "map_of info word = None"
  shows "fst (show_cache_info ops d (word # words) st) = 1
       \<and> printed (snd (show_cache_info ops d (word # words) st))
           = printed st @ [Text (CHR 0x0A # ''Cache info for '' @ quoted word @ '':'')]
       \<and> logged (snd (show_cache_info ops d (word # words) st))
           = logged st @ [''Error getting cache info: '' @ repr word]
       \<and> calls (snd (show_cache_info ops d (word # words) st))
           = calls st @ [Call_get_cache_info (config_of d) (Some word)]"
  using assms
  by (simp add: show_cache_info_def cache_info_body_def get_cache_info_eq print_fields
      logging_error_fields)

theorem missing_key_fails_witness:
  "fst (show_cache_info
         \<lparr>dl_init = (\<lambda>c w. (Inr (), w)),
          dl_download_all_accents = (\<lambda>c word w. (Inr [], w)),
          dl_download_pronunciation = (\<lambda>c word a w. (Inr None, w)),
          dl_get_cache_info = (\<lambda>c word w. (Inr [(''hello'', JNull)], w)),
          dl_clear_cache = (\<lambda>c word w. (Inr (), w))\<rparr>
         (Downloader \<lparr>output_dir = Path ''out'', timeout = 10, use_cache = True,
            force_download = False\<rparr>)
         [''Hello'', ''cat''] (start ())) = 1
   \<and> logged (snd (show_cache_info
         \<lparr>dl_init = (\<lambda>c w. (Inr (), w)),
          dl_download_all_accents = (\<lambda>c word w. (Inr [], w)),
          dl_download_pronunciation = (\<lambda>c word a w. (Inr None, w)),
          dl_get_cache_info = (\<lambda>c word w. (Inr [(''hello'', JNull)], w)),
          dl_clear_cache = (\<lambda>c word w. (Inr (), w))\<rparr>
         (Downloader \<lparr>output_dir = Path ''out'', timeout = 10, use_cache = True,
            force_download = False\<rparr>)
         [''Hello'', ''cat''] (start ())))
     = [''Error getting cache info: '' @ quoted ''Hello'']"
proof -
  let ?ops = "\<lparr>dl_init = (\<lambda>c w. (Inr (), w)),
          dl_download_all_accents = (\<lambda>c word w. (Inr [], w)),
          dl_download_pronunciation = (\<lambda>c word a w. (Inr None, w)),
          dl_get_cache_info = (\<lambda>c word w. (Inr [(''hello'', JNull)], w)),
          dl_clear_cache = (\<lambda>c word w. (Inr (), w))\<rparr> :: unit downloader_ops"
  let ?d = "Downloader \<lparr>output_dir = Path ''out'', timeout = 10, use_cache = True,
            force_download = False\<rparr>"
  have a: "dl_get_cache_info ?ops (config_of ?d) (Some ''Hello'') (world (start ()))
      = (Inr [(''hello'', JNull)], ())"
    by simp
  have b: "[(''hello'', JNull)] \<noteq> []" and c: "map_of [(''hello'', JNull)] ''Hello'' = None"
    by simp_all
  have r: "repr ''Hello'' = quoted ''Hello''"
    by (simp add: repr_def repr_quote_def repr_char_def quoted_def)
  show ?thesis
    using missing_key_fails [OF a b c, of "[''cat'']"] by (simp add: r start_def)
qed
end
